theory Spec2Isabelle
  imports Main "HOL-Library.AList"
begin

section \<open>Errors\<close>

text \<open>
  Every \<^verbatim>\<open>throw\<close> of the TypeScript sources is a value of this type. The constructor
  is the class of the thrown object, its argument the fixed part of the message (the
  interpolated parts of a template message are left out).
\<close>

datatype error =
    Error string
  | ValueError string
  | TypeError string
  | ReferenceError string
  | RuntimeError string
  | PersistError string
  | EqualVersionError string
  | UnsignedMetadataError string
  | BadVersionError string
  | RepositoryError string

section \<open>The \<^verbatim>\<open>Signed\<close> base class (models/base.ts)\<close>

subsection \<open>The JavaScript built-ins the constructor uses\<close>

text \<open>
  \<^verbatim>\<open>String.prototype.split('.')\<close>: the pieces between the dots; a string without a dot
  (the empty one too) gives one piece.
\<close>

fun split_acc :: "char \<Rightarrow> string \<Rightarrow> string \<Rightarrow> string list" where
  "split_acc d cur [] = [rev cur]"
| "split_acc d cur (c # cs) =
     (if c = d then rev cur # split_acc d [] cs else split_acc d (c # cur) cs)"

definition split :: "char \<Rightarrow> string \<Rightarrow> string list" where
  "split d s = split_acc d [] s"

text \<open>
  \<^verbatim>\<open>isNaN(Number(str))\<close> for a string: ECMAScript's StringToNumber grammar decides it.
  The string, with white space stripped at both ends, must be empty (the number 0), a
  signed decimal literal (digits with an optional fraction and exponent, or
  \<^verbatim>\<open>Infinity\<close>), or an unsigned binary, octal or hexadecimal integer literal. Characters
  are the code units below 256.
\<close>

definition isStrWhiteSpaceChar :: "char \<Rightarrow> bool" where
  "isStrWhiteSpaceChar c \<longleftrightarrow> (of_char c :: nat) \<in> {9, 10, 11, 12, 13, 32, 160}"

definition trim :: "string \<Rightarrow> string" where
  "trim s = rev (dropWhile isStrWhiteSpaceChar (rev (dropWhile isStrWhiteSpaceChar s)))"

definition isDecimalDigit :: "char \<Rightarrow> bool" where
  "isDecimalDigit c \<longleftrightarrow> c \<in> set ''0123456789''"

definition isBinaryDigit :: "char \<Rightarrow> bool" where
  "isBinaryDigit c \<longleftrightarrow> c \<in> set ''01''"

definition isOctalDigit :: "char \<Rightarrow> bool" where
  "isOctalDigit c \<longleftrightarrow> c \<in> set ''01234567''"

definition isHexDigit :: "char \<Rightarrow> bool" where
  "isHexDigit c \<longleftrightarrow> c \<in> set ''0123456789abcdefABCDEF''"

definition isDigits :: "(char \<Rightarrow> bool) \<Rightarrow> string \<Rightarrow> bool" where
  "isDigits p s \<longleftrightarrow> s \<noteq> [] \<and> list_all p s"

fun isSignedInteger :: "string \<Rightarrow> bool" where
  "isSignedInteger [] = False"
| "isSignedInteger (c # cs) =
     (if c = CHR ''+'' \<or> c = CHR ''-'' then isDigits isDecimalDigit cs
      else isDigits isDecimalDigit (c # cs))"

fun isExponentPart :: "string \<Rightarrow> bool" where
  "isExponentPart [] = False"
| "isExponentPart (c # cs) = ((c = CHR ''e'' \<or> c = CHR ''E'') \<and> isSignedInteger cs)"

definition isStrUnsignedDecimalLiteral :: "string \<Rightarrow> bool" where
  "isStrUnsignedDecimalLiteral s \<longleftrightarrow>
     s = ''Infinity'' \<or>
     (let ip = takeWhile isDecimalDigit s; r1 = dropWhile isDecimalDigit s
      in case r1 of
           [] \<Rightarrow> ip \<noteq> []
         | c # cs \<Rightarrow>
             if c = CHR ''.''
             then (let fp = takeWhile isDecimalDigit cs; r2 = dropWhile isDecimalDigit cs
                   in (ip \<noteq> [] \<or> fp \<noteq> []) \<and> (r2 = [] \<or> isExponentPart r2))
             else ip \<noteq> [] \<and> isExponentPart r1)"

fun isStrDecimalLiteral :: "string \<Rightarrow> bool" where
  "isStrDecimalLiteral [] = False"
| "isStrDecimalLiteral (c # cs) =
     (if c = CHR ''+'' \<or> c = CHR ''-'' then isStrUnsignedDecimalLiteral cs
      else isStrUnsignedDecimalLiteral (c # cs))"

fun isNonDecimalIntegerLiteral :: "string \<Rightarrow> bool" where
  "isNonDecimalIntegerLiteral (z # k # ds) =
     (z = CHR ''0'' \<and>
      (if k = CHR ''b'' \<or> k = CHR ''B'' then isDigits isBinaryDigit ds
       else if k = CHR ''o'' \<or> k = CHR ''O'' then isDigits isOctalDigit ds
       else if k = CHR ''x'' \<or> k = CHR ''X'' then isDigits isHexDigit ds
       else False))"
| "isNonDecimalIntegerLiteral _ = False"

definition Number_isNaN :: "string \<Rightarrow> bool" where
  "Number_isNaN str =
     (let s = trim str
      in \<not> (s = [] \<or> isStrDecimalLiteral s \<or> isNonDecimalIntegerLiteral s))"

subsection \<open>The constructor\<close>

text \<open>\<^verbatim>\<open>function isNumeric(str) { return !isNaN(Number(str)); }\<close>\<close>

definition isNumeric :: "string \<Rightarrow> bool" where
  "isNumeric str \<longleftrightarrow> \<not> Number_isNaN str"

text \<open>\<^verbatim>\<open>const SPECIFICATION_VERSION = ['1', '20', '30']\<close>\<close>

definition SPECIFICATION_VERSION :: "string list" where
  "SPECIFICATION_VERSION = [''1'', ''20'', ''30'']"

text \<open>\<^verbatim>\<open>Array.prototype.join('.')\<close>\<close>

fun join :: "string \<Rightarrow> string list \<Rightarrow> string" where
  "join d [] = []"
| "join d [x] = x"
| "join d (x # y # ys) = x @ d @ join d (y # ys)"

text \<open>
  \<^verbatim>\<open>SignedOptions\<close>: every field is optional, \<open>None\<close> is \<^verbatim>\<open>undefined\<close>. The version is a
  JavaScript number; the model takes the integers.
\<close>

record 'j SignedOptions =
  opt_version :: "int option"
  opt_specVersion :: "string option"
  opt_expires :: "string option"
  opt_unrecognizedFields :: "(string \<times> 'j) list option"

record 'j Signed =
  specVersion :: string
  expires :: string
  version :: int
  unrecognizedFields :: "(string \<times> 'j) list"

text \<open>
  \<^verbatim>\<open>a || b\<close> on an optional string: \<^verbatim>\<open>undefined\<close> and the empty string are falsy; on an
  optional number: \<^verbatim>\<open>undefined\<close> and 0 are falsy.
\<close>

definition or_string :: "string option \<Rightarrow> string \<Rightarrow> string" where
  "or_string a b = (case a of None \<Rightarrow> b | Some s \<Rightarrow> if s = [] then b else s)"

definition or_number :: "int option \<Rightarrow> int \<Rightarrow> int" where
  "or_number a b = (case a of None \<Rightarrow> b | Some n \<Rightarrow> if n = 0 then b else n)"

text \<open>
  The constructor of \<^verbatim>\<open>Signed\<close>. Its first argument is what
  \<^verbatim>\<open>new Date().toISOString()\<close> returns at the time of the call.
\<close>

definition Signed_constructor :: "string \<Rightarrow> 'j SignedOptions \<Rightarrow> error + 'j Signed" where
  "Signed_constructor now options =
     (let specVersion' = or_string (opt_specVersion options) (join ''.'' SPECIFICATION_VERSION);
          specList = split CHR ''.'' specVersion'
      in if \<not> (length specList = 2 \<or> length specList = 3) \<or> \<not> list_all isNumeric specList
         then Inl (ValueError ''Failed to parse specVersion'')
         else if hd specList \<noteq> hd SPECIFICATION_VERSION
         then Inl (ValueError ''Unsupported specVersion'')
         else Inr \<lparr> specVersion = specVersion',
                    expires = or_string (opt_expires options) now,
                    version = or_number (opt_version options) 1,
                    unrecognizedFields =
                      (case opt_unrecognizedFields options of None \<Rightarrow> [] | Some u \<Rightarrow> u) \<rparr>)"

subsection \<open>The spec-version check\<close>

text \<open>
  The test of the constructor, on the string it checks: splitting on the dot gives 2 or 3
  pieces, \<open>isNumeric\<close> holds of every piece, the first piece is the string \<^verbatim>\<open>1\<close>.
\<close>

definition specVersion_test :: "string \<Rightarrow> bool" where
  "specVersion_test s \<longleftrightarrow>
     (let specList = split CHR ''.'' s
      in (length specList = 2 \<or> length specList = 3) \<and> list_all isNumeric specList \<and>
         hd specList = ''1'')"

text \<open>
  The three conditions in the words of the specification (``dotted numeric, 2--3
  components, major must equal 1''): a component is numeric when it is a non-empty run of
  decimal digits.
\<close>

definition spec_numeric :: "string \<Rightarrow> bool" where
  "spec_numeric c \<longleftrightarrow> c \<noteq> [] \<and> list_all isDecimalDigit c"

definition spec_wellformed :: "string \<Rightarrow> bool" where
  "spec_wellformed s \<longleftrightarrow>
     (let components = split CHR ''.'' s
      in (length components = 2 \<or> length components = 3) \<and>
         list_all spec_numeric components \<and> hd components = ''1'')"

text \<open>
  The strings that are not numeric and that \<^verbatim>\<open>Number\<close> converts to a number all the same:
  the empty and the blank string, a numeral with a sign, an exponent or white space
  around it, a binary, octal or hexadecimal literal, \<^verbatim>\<open>Infinity\<close>.
\<close>

definition coerced :: "string \<Rightarrow> bool" where
  "coerced c \<longleftrightarrow> \<not> spec_numeric c \<and> \<not> Number_isNaN c"

lemma Signed_constructor_Inr_iff:
  "(\<exists>v. Signed_constructor now options = Inr v) \<longleftrightarrow>
     specVersion_test (or_string (opt_specVersion options) ''1.20.30'')"
  by (auto simp: Signed_constructor_def specVersion_test_def Let_def SPECIFICATION_VERSION_def)

lemma Signed_constructor_Inr_specVersion:
  "Signed_constructor now options = Inr v \<Longrightarrow>
     specVersion v = or_string (opt_specVersion options) ''1.20.30''"
  by (auto simp: Signed_constructor_def Let_def SPECIFICATION_VERSION_def split: if_splits)

lemma Signed_constructor_Inl:
  "Signed_constructor now options = Inl e \<Longrightarrow>
     e = ValueError ''Failed to parse specVersion'' \<or> e = ValueError ''Unsupported specVersion''"
  by (auto simp: Signed_constructor_def Let_def split: if_splits)

lemma Signed_constructor_cases:
  "(\<exists>v. Signed_constructor now options = Inr v) \<or>
   (\<exists>m. Signed_constructor now options = Inl (ValueError m))"
proof (cases "Signed_constructor now options")
  case (Inl e)
  with Signed_constructor_Inl [OF Inl] show ?thesis by auto
next
  case (Inr v)
  then show ?thesis by simp
qed

lemma specVersion_test_default: "specVersion_test ''1.20.30''"
  by code_simp

text \<open>A run of decimal digits has no white space to trim, and \<^verbatim>\<open>Number\<close> converts it.\<close>

lemma isDecimalDigit_not_space: "isDecimalDigit c \<Longrightarrow> \<not> isStrWhiteSpaceChar c"
  by (auto simp: isDecimalDigit_def isStrWhiteSpaceChar_def)

lemma isDecimalDigit_not_sign: "isDecimalDigit c \<Longrightarrow> c \<noteq> CHR ''+'' \<and> c \<noteq> CHR ''-''"
  by (auto simp: isDecimalDigit_def)

lemma spec_numeric_trim:
  assumes "spec_numeric c"
  shows "trim c = c"
proof -
  from assms have ne: "c \<noteq> []" and a: "list_all isDecimalDigit c"
    by (simp_all add: spec_numeric_def)
  then have h: "isDecimalDigit (hd c)" and l: "isDecimalDigit (last c)"
    by (auto simp: list_all_iff)
  have lead: "dropWhile isStrWhiteSpaceChar c = c"
    using ne h isDecimalDigit_not_space by (cases c) auto
  have trail: "dropWhile isStrWhiteSpaceChar (rev c) = rev c"
    using ne l isDecimalDigit_not_space by (cases "rev c") (auto simp: last_rev hd_rev)
  show ?thesis by (simp add: trim_def lead trail)
qed

lemma spec_numeric_isNumeric:
  assumes "spec_numeric c"
  shows "isNumeric c"
proof -
  from assms have ne: "c \<noteq> []" and a: "list_all isDecimalDigit c"
    by (simp_all add: spec_numeric_def)
  from a have t: "takeWhile isDecimalDigit c = c" "dropWhile isDecimalDigit c = []"
    by (simp_all add: list_all_iff)
  have u: "isStrUnsignedDecimalLiteral c"
    unfolding isStrUnsignedDecimalLiteral_def Let_def t using ne by simp
  from ne a obtain d ds where c: "c = d # ds" and d: "isDecimalDigit d"
    by (cases c) auto
  from u c isDecimalDigit_not_sign [OF d] have "isStrDecimalLiteral c" by simp
  then show ?thesis
    by (simp add: isNumeric_def Number_isNaN_def Let_def spec_numeric_trim [OF assms])
qed

text \<open>
  Every well-formed spec version passes the test of the constructor; one that passes the
  test with no coerced component is well-formed.
\<close>

lemma spec_wellformed_test:
  "spec_wellformed s \<Longrightarrow> specVersion_test s"
  by (auto simp: spec_wellformed_def specVersion_test_def Let_def list_all_iff
           intro: spec_numeric_isNumeric)

lemma specVersion_test_wellformed:
  "specVersion_test s \<Longrightarrow> \<not> list_ex coerced (split CHR ''.'' s) \<Longrightarrow> spec_wellformed s"
  by (auto simp: spec_wellformed_def specVersion_test_def Let_def list_all_iff list_ex_iff
                 coerced_def isNumeric_def)

text \<open>
  The test of the constructor is wider than the three conditions: \<open>isNumeric\<close> holds of
  the empty piece, of a piece with white space, of a hexadecimal literal and of
  \<^verbatim>\<open>Infinity\<close>, so spec versions such as \<^verbatim>\<open>1.\<close> and \<^verbatim>\<open>1.0x1F\<close> are accepted although
  they are not dotted numeric.
\<close>

lemma coerced_examples:
  "coerced ''''" "coerced '' ''" "coerced ''0x1F''" "coerced ''Infinity''" "coerced ''1e3''"
  "coerced ''-2''" "\<not> coerced ''31''" "\<not> coerced ''a''" "\<not> coerced ''1a''"
  by code_simp+

lemma specVersion_coerced_accepted:
  "\<not> spec_wellformed ''1.''"
  "Signed_constructor ''2023-01-01T00:00:00.000Z''
     \<lparr> opt_version = Some 1, opt_specVersion = Some ''1.'',
       opt_expires = Some ''2030-01-01T00:00:00.000Z'',
       opt_unrecognizedFields = (None :: (string \<times> unit) list option) \<rparr>
   = Inr \<lparr> specVersion = ''1.'', expires = ''2030-01-01T00:00:00.000Z'', version = 1,
           unrecognizedFields = [] \<rparr>"
  "\<not> spec_wellformed ''1.0x1F''"
  "Signed_constructor ''2023-01-01T00:00:00.000Z''
     \<lparr> opt_version = Some 1, opt_specVersion = Some ''1.0x1F'',
       opt_expires = Some ''2030-01-01T00:00:00.000Z'',
       opt_unrecognizedFields = (None :: (string \<times> unit) list option) \<rparr>
   = Inr \<lparr> specVersion = ''1.0x1F'', expires = ''2030-01-01T00:00:00.000Z'', version = 1,
           unrecognizedFields = [] \<rparr>"
  by code_simp+

text \<open>
  C8, as stated, fails at the empty string: \<^verbatim>\<open>options.specVersion || ...\<close> takes the
  empty string for an absent one, so the default \<^verbatim>\<open>1.20.30\<close> is checked in its place and
  the construction succeeds, although splitting the empty string gives one component.
\<close>

theorem specVersion_empty_accepted:
  "length (split CHR ''.'' '''') = 1 \<and> \<not> spec_wellformed '''' \<and>
   Signed_constructor ''2023-01-01T00:00:00.000Z''
     \<lparr> opt_version = Some 1, opt_specVersion = Some '''',
       opt_expires = Some ''2030-01-01T00:00:00.000Z'',
       opt_unrecognizedFields = (None :: (string \<times> unit) list option) \<rparr>
   = Inr \<lparr> specVersion = ''1.20.30'', expires = ''2030-01-01T00:00:00.000Z'', version = 1,
           unrecognizedFields = [] \<rparr>"
  by code_simp

text \<open>
  C8, amended: for every non-empty spec-version string given to the constructor of
  \<open>Signed\<close>, the construction succeeds, keeping the string, whenever splitting it on the
  dot gives 2 or 3 components, every component is numeric and the first component is the
  string \<^verbatim>\<open>1\<close>; it fails with a \<open>ValueError\<close> whenever the number of components is not 2
  or 3, the first component is not \<^verbatim>\<open>1\<close>, or a component is neither numeric nor coerced;
  so where no component is coerced, it succeeds if and only if the three conditions hold
  and fails with a \<open>ValueError\<close> otherwise. With the empty string, as with no spec
  version, the construction succeeds with the default \<^verbatim>\<open>1.20.30\<close>. (What is not part of
  the statement: the outcome for a string of 2 or 3 components, the first of them \<^verbatim>\<open>1\<close>,
  each numeric or coerced and one at least coerced.)
\<close>

theorem specVersion_check:
  "(opt_specVersion options = Some s \<and> s \<noteq> [] \<longrightarrow>
      (spec_wellformed s \<longrightarrow>
         (\<exists>v. Signed_constructor now options = Inr v \<and> specVersion v = s)) \<and>
      (\<not> (length (split CHR ''.'' s) = 2 \<or> length (split CHR ''.'' s) = 3) \<or>
       hd (split CHR ''.'' s) \<noteq> ''1'' \<or>
       list_ex (\<lambda>c. \<not> spec_numeric c \<and> \<not> coerced c) (split CHR ''.'' s) \<longrightarrow>
         (\<exists>m. Signed_constructor now options = Inl (ValueError m))) \<and>
      (\<not> list_ex coerced (split CHR ''.'' s) \<longrightarrow>
         ((\<exists>v. Signed_constructor now options = Inr v) \<longleftrightarrow> spec_wellformed s) \<and>
         ((\<exists>m. Signed_constructor now options = Inl (ValueError m)) \<longleftrightarrow>
            \<not> spec_wellformed s))) \<and>
   (opt_specVersion options = Some [] \<or> opt_specVersion options = None \<longrightarrow>
      (\<exists>v. Signed_constructor now options = Inr v \<and> specVersion v = ''1.20.30''))"
proof (rule conjI)
  show "opt_specVersion options = Some s \<and> s \<noteq> [] \<longrightarrow>
      (spec_wellformed s \<longrightarrow>
         (\<exists>v. Signed_constructor now options = Inr v \<and> specVersion v = s)) \<and>
      (\<not> (length (split CHR ''.'' s) = 2 \<or> length (split CHR ''.'' s) = 3) \<or>
       hd (split CHR ''.'' s) \<noteq> ''1'' \<or>
       list_ex (\<lambda>c. \<not> spec_numeric c \<and> \<not> coerced c) (split CHR ''.'' s) \<longrightarrow>
         (\<exists>m. Signed_constructor now options = Inl (ValueError m))) \<and>
      (\<not> list_ex coerced (split CHR ''.'' s) \<longrightarrow>
         ((\<exists>v. Signed_constructor now options = Inr v) \<longleftrightarrow> spec_wellformed s) \<and>
         ((\<exists>m. Signed_constructor now options = Inl (ValueError m)) \<longleftrightarrow>
            \<not> spec_wellformed s))"
  proof
    assume a: "opt_specVersion options = Some s \<and> s \<noteq> []"
    then have eq: "or_string (opt_specVersion options) ''1.20.30'' = s"
      by (simp add: or_string_def)
    have r: "(\<exists>v. Signed_constructor now options = Inr v) \<longleftrightarrow> specVersion_test s"
      using Signed_constructor_Inr_iff [of now options] eq by simp
    have l: "(\<exists>m. Signed_constructor now options = Inl (ValueError m)) \<longleftrightarrow> \<not> specVersion_test s"
      using r Signed_constructor_cases [of now options] by auto
    have accept: "\<exists>v. Signed_constructor now options = Inr v \<and> specVersion v = s"
      if "spec_wellformed s"
    proof -
      from that r obtain v where v: "Signed_constructor now options = Inr v"
        using spec_wellformed_test by blast
      from Signed_constructor_Inr_specVersion [OF v] eq have "specVersion v = s" by simp
      with v show ?thesis by blast
    qed
    have shape: "\<exists>m. Signed_constructor now options = Inl (ValueError m)"
      if "\<not> (length (split CHR ''.'' s) = 2 \<or> length (split CHR ''.'' s) = 3) \<or>
          hd (split CHR ''.'' s) \<noteq> ''1'' \<or>
          list_ex (\<lambda>c. \<not> spec_numeric c \<and> \<not> coerced c) (split CHR ''.'' s)"
    proof -
      from that have "\<not> specVersion_test s"
        by (auto simp: specVersion_test_def Let_def list_all_iff list_ex_iff coerced_def
                       isNumeric_def)
      with l show ?thesis by simp
    qed
    have exact: "((\<exists>v. Signed_constructor now options = Inr v) \<longleftrightarrow> spec_wellformed s) \<and>
         ((\<exists>m. Signed_constructor now options = Inl (ValueError m)) \<longleftrightarrow>
            \<not> spec_wellformed s)"
      if "\<not> list_ex coerced (split CHR ''.'' s)"
    proof -
      from that have "specVersion_test s \<longleftrightarrow> spec_wellformed s"
        using spec_wellformed_test specVersion_test_wellformed by blast
      with r l show ?thesis by simp
    qed
    from accept shape exact
    show "(spec_wellformed s \<longrightarrow>
         (\<exists>v. Signed_constructor now options = Inr v \<and> specVersion v = s)) \<and>
      (\<not> (length (split CHR ''.'' s) = 2 \<or> length (split CHR ''.'' s) = 3) \<or>
       hd (split CHR ''.'' s) \<noteq> ''1'' \<or>
       list_ex (\<lambda>c. \<not> spec_numeric c \<and> \<not> coerced c) (split CHR ''.'' s) \<longrightarrow>
         (\<exists>m. Signed_constructor now options = Inl (ValueError m))) \<and>
      (\<not> list_ex coerced (split CHR ''.'' s) \<longrightarrow>
         ((\<exists>v. Signed_constructor now options = Inr v) \<longleftrightarrow> spec_wellformed s) \<and>
         ((\<exists>m. Signed_constructor now options = Inl (ValueError m)) \<longleftrightarrow>
            \<not> spec_wellformed s))"
      by blast
  qed
next
  show "opt_specVersion options = Some [] \<or> opt_specVersion options = None \<longrightarrow>
      (\<exists>v. Signed_constructor now options = Inr v \<and> specVersion v = ''1.20.30'')"
  proof
    assume "opt_specVersion options = Some [] \<or> opt_specVersion options = None"
    then have eq: "or_string (opt_specVersion options) ''1.20.30'' = ''1.20.30''"
      by (auto simp: or_string_def)
    with Signed_constructor_Inr_iff [of now options] specVersion_test_default
    obtain v where v: "Signed_constructor now options = Inr v" by auto
    from Signed_constructor_Inr_specVersion [OF v] eq have "specVersion v = ''1.20.30''"
      by simp
    with v show "\<exists>v. Signed_constructor now options = Inr v \<and> specVersion v = ''1.20.30''"
      by blast
  qed
qed

theorem specVersion_check_witness:
  "spec_wellformed ''1.0.31'' \<and>
   (\<exists>v. Signed_constructor ''2023-01-01T00:00:00.000Z''
     \<lparr> opt_version = Some 3, opt_specVersion = Some ''1.0.31'',
       opt_expires = Some ''2030-01-01T00:00:00.000Z'',
       opt_unrecognizedFields = (None :: (string \<times> unit) list option) \<rparr> = Inr v \<and>
        specVersion v = ''1.0.31'') \<and>
   hd (split CHR ''.'' ''2.0'') \<noteq> ''1'' \<and>
   (\<exists>m. Signed_constructor ''2023-01-01T00:00:00.000Z''
     \<lparr> opt_version = Some 3, opt_specVersion = Some ''2.0'',
       opt_expires = Some ''2030-01-01T00:00:00.000Z'',
       opt_unrecognizedFields = (None :: (string \<times> unit) list option) \<rparr> = Inl (ValueError m)) \<and>
   \<not> list_ex coerced (split CHR ''.'' ''1.a'') \<and> \<not> spec_wellformed ''1.a'' \<and>
   (\<exists>m. Signed_constructor ''2023-01-01T00:00:00.000Z''
     \<lparr> opt_version = Some 3, opt_specVersion = Some ''1.a'',
       opt_expires = Some ''2030-01-01T00:00:00.000Z'',
       opt_unrecognizedFields = (None :: (string \<times> unit) list option) \<rparr> = Inl (ValueError m)) \<and>
   list_ex (\<lambda>c. \<not> spec_numeric c \<and> \<not> coerced c) (split CHR ''.'' ''1..a'') \<and>
   (\<exists>m. Signed_constructor ''2023-01-01T00:00:00.000Z''
     \<lparr> opt_version = Some 3, opt_specVersion = Some ''1..a'',
       opt_expires = Some ''2030-01-01T00:00:00.000Z'',
       opt_unrecognizedFields = (None :: (string \<times> unit) list option) \<rparr> = Inl (ValueError m)) \<and>
   (\<exists>v. Signed_constructor ''2023-01-01T00:00:00.000Z''
     \<lparr> opt_version = Some 3, opt_specVersion = None,
       opt_expires = Some ''2030-01-01T00:00:00.000Z'',
       opt_unrecognizedFields = (None :: (string \<times> unit) list option) \<rparr> = Inr v \<and>
        specVersion v = ''1.20.30'')"
proof -
  have ok: "spec_wellformed ''1.0.31''" "hd (split CHR ''.'' ''2.0'') \<noteq> ''1''"
    "\<not> list_ex coerced (split CHR ''.'' ''1.a'')" "\<not> spec_wellformed ''1.a''"
    "list_ex (\<lambda>c. \<not> spec_numeric c \<and> \<not> coerced c) (split CHR ''.'' ''1..a'')"
    by code_simp+
  show ?thesis
    using ok
      specVersion_check [of "\<lparr> opt_version = Some 3, opt_specVersion = Some ''1.0.31'',
       opt_expires = Some ''2030-01-01T00:00:00.000Z'',
       opt_unrecognizedFields = (None :: (string \<times> unit) list option) \<rparr>" "''1.0.31''"
       "''2023-01-01T00:00:00.000Z''"]
      specVersion_check [of "\<lparr> opt_version = Some 3, opt_specVersion = Some ''2.0'',
       opt_expires = Some ''2030-01-01T00:00:00.000Z'',
       opt_unrecognizedFields = (None :: (string \<times> unit) list option) \<rparr>" "''2.0''"
       "''2023-01-01T00:00:00.000Z''"]
      specVersion_check [of "\<lparr> opt_version = Some 3, opt_specVersion = Some ''1.a'',
       opt_expires = Some ''2030-01-01T00:00:00.000Z'',
       opt_unrecognizedFields = (None :: (string \<times> unit) list option) \<rparr>" "''1.a''"
       "''2023-01-01T00:00:00.000Z''"]
      specVersion_check [of "\<lparr> opt_version = Some 3, opt_specVersion = Some ''1..a'',
       opt_expires = Some ''2030-01-01T00:00:00.000Z'',
       opt_unrecognizedFields = (None :: (string \<times> unit) list option) \<rparr>" "''1..a''"
       "''2023-01-01T00:00:00.000Z''"]
      specVersion_check [of "\<lparr> opt_version = Some 3, opt_specVersion = None,
       opt_expires = Some ''2030-01-01T00:00:00.000Z'',
       opt_unrecognizedFields = (None :: (string \<times> unit) list option) \<rparr>" "[]"
       "''2023-01-01T00:00:00.000Z''"]
    by simp
qed

subsection \<open>Defaults of the version and of the expiry\<close>

text \<open>
  C9: where the construction of a \<open>Signed\<close> succeeds, it also succeeds with the version
  absent or 0, and then the version is 1; and it succeeds with the expiry absent, and then
  the expiry is the instant of the construction. Neither is an error.
\<close>

theorem Signed_defaults:
  assumes "Signed_constructor now options = Inr v"
  shows "(ver = None \<or> ver = Some 0 \<longrightarrow>
            Signed_constructor now (options\<lparr>opt_version := ver\<rparr>) = Inr (v\<lparr>version := 1\<rparr>)) \<and>
         Signed_constructor now (options\<lparr>opt_expires := None\<rparr>) = Inr (v\<lparr>expires := now\<rparr>)"
  using assms
  by (auto simp: Signed_constructor_def Let_def or_number_def or_string_def split: if_splits)

theorem Signed_defaults_witness:
  "Signed_constructor ''2023-01-01T00:00:00.000Z''
     \<lparr> opt_version = Some 0, opt_specVersion = Some ''1.0.31'', opt_expires = None,
       opt_unrecognizedFields = (None :: (string \<times> unit) list option) \<rparr>
   = Inr \<lparr> specVersion = ''1.0.31'', expires = ''2023-01-01T00:00:00.000Z'', version = 1,
           unrecognizedFields = [] \<rparr> \<and>
   Signed_constructor ''2023-01-01T00:00:00.000Z''
     \<lparr> opt_version = None, opt_specVersion = Some ''1.0.31'', opt_expires = None,
       opt_unrecognizedFields = (None :: (string \<times> unit) list option) \<rparr>
   = Inr \<lparr> specVersion = ''1.0.31'', expires = ''2023-01-01T00:00:00.000Z'', version = 1,
           unrecognizedFields = [] \<rparr>"
proof -
  have c: "Signed_constructor ''2023-01-01T00:00:00.000Z''
     \<lparr> opt_version = Some 7, opt_specVersion = Some ''1.0.31'', opt_expires = None,
       opt_unrecognizedFields = (None :: (string \<times> unit) list option) \<rparr>
   = Inr \<lparr> specVersion = ''1.0.31'', expires = ''2023-01-01T00:00:00.000Z'', version = 7,
           unrecognizedFields = [] \<rparr>"
    by code_simp
  show ?thesis
    using Signed_defaults [OF c, of "Some 0"] Signed_defaults [OF c, of None] by simp
qed

section \<open>The metadata envelope (models/metadata.ts, models/key.ts)\<close>

subsection \<open>Data\<close>

text \<open>\<^verbatim>\<open>enum MetadataKind\<close> and the string each member stands for.\<close>

datatype MetadataKind = KindRoot | KindTimestamp | KindSnapshot | KindTargets

fun kind_name :: "MetadataKind \<Rightarrow> string" where
  "kind_name KindRoot = ''root''"
| "kind_name KindTimestamp = ''timestamp''"
| "kind_name KindSnapshot = ''snapshot''"
| "kind_name KindTargets = ''targets''"

text \<open>
  A \<^verbatim>\<open>Record<string, T>\<close> is an association list with one entry per key, read with
  \<open>map_of\<close> and written with \<open>AList.update\<close>: assigning to a key that is present replaces
  its value in place, assigning to a new key appends the entry. (Keys that name a
  property of \<^verbatim>\<open>Object.prototype\<close> are left aside.)
\<close>

record Signature =
  sig_keyID :: string
  sig :: string

record Key =
  keyID :: string
  keyType :: string
  scheme :: string
  keyVal :: "(string \<times> string) list"

text \<open>The threshold is a JavaScript number; the model takes the integers.\<close>

record Role =
  keyIDs :: "string list"
  threshold :: int

record 'j Root = "'j Signed" +
  keys :: "(string \<times> Key) list"
  roles :: "(string \<times> Role) list"
  consistentSnapshot :: bool

text \<open>
  \<^verbatim>\<open>type MetadataType = Root | Timestamp | Snapshot | Targets\<close>. Of the last three only the
  fields of \<open>Signed\<close> are kept: the code modelled here reads none of their own.
\<close>

datatype 'j MetadataType =
    RootBody "'j Root"
  | TimestampBody "'j Signed"
  | SnapshotBody "'j Signed"
  | TargetsBody "'j Signed"

fun type_of :: "'j MetadataType \<Rightarrow> MetadataKind" where
  "type_of (RootBody _) = KindRoot"
| "type_of (TimestampBody _) = KindTimestamp"
| "type_of (SnapshotBody _) = KindSnapshot"
| "type_of (TargetsBody _) = KindTargets"

record 'j Metadata =
  signed :: "'j MetadataType"
  signatures :: "(string \<times> Signature) list"
  md_unrecognizedFields :: "(string \<times> 'j) list"

subsection \<open>\<^verbatim>\<open>Metadata.fromJSON\<close>\<close>

text \<open>
  The parsed JSON document, with the fields the function destructures: \<^verbatim>\<open>signed\<close> (its
  \<^verbatim>\<open>_type\<close> and the object itself), the \<^verbatim>\<open>signatures\<close> array, whose entries have the type
  \<^verbatim>\<open>{ keyid: string; sig: string }\<close>, and the rest.
\<close>

record wire_signature =
  w_keyid :: string
  w_sig :: string

record 'j wire_metadata =
  w_signed_type :: string
  w_signed :: 'j
  w_signatures :: "wire_signature list"
  w_rest :: "(string \<times> 'j) list"

text \<open>
  \<^verbatim>\<open>signatures.forEach((sig) => { sigs[sig.keyid] = { keyID: sig.keyid, sig: sig.sig }; })\<close>
  starting from the empty record.
\<close>

definition collect_signatures :: "wire_signature list \<Rightarrow> (string \<times> Signature) list" where
  "collect_signatures ws =
     foldl (\<lambda>sigs s. AList.update (w_keyid s) \<lparr> sig_keyID = w_keyid s, sig = w_sig s \<rparr> sigs) [] ws"

text \<open>
  \<^verbatim>\<open>Metadata.fromJSON(type, data)\<close>. The parsers of the four signed bodies
  (\<^verbatim>\<open>Root.fromJSON\<close>, \<^verbatim>\<open>Timestamp.fromJSON\<close>, ...) are the parameter \<open>signedFromJSON\<close>; each
  may throw.
\<close>

definition Metadata_fromJSON ::
  "(MetadataKind \<Rightarrow> 'j \<Rightarrow> error + 'j MetadataType) \<Rightarrow> MetadataKind \<Rightarrow> 'j wire_metadata
     \<Rightarrow> error + 'j Metadata"
where
  "Metadata_fromJSON signedFromJSON type data =
     (if kind_name type \<noteq> w_signed_type data then Inl (Error ''Expected'')
      else case signedFromJSON type (w_signed data) of
             Inl e \<Rightarrow> Inl e
           | Inr signedObj \<Rightarrow>
               Inr \<lparr> signed = signedObj,
                     signatures = collect_signatures (w_signatures data),
                     md_unrecognizedFields = w_rest data \<rparr>)"

text \<open>
  \<^verbatim>\<open>Targets.fromJSON(_data) { return new Targets({}); }\<close>, with the instant of the call.
\<close>

definition Targets_fromJSON :: "string \<Rightarrow> 'j \<Rightarrow> error + 'j MetadataType" where
  "Targets_fromJSON now data =
     (case Signed_constructor now
             \<lparr> opt_version = None, opt_specVersion = None, opt_expires = None,
               opt_unrecognizedFields = None \<rparr> of
        Inl e \<Rightarrow> Inl e
      | Inr s \<Rightarrow> Inr (TargetsBody s))"

text \<open>The last entry of the wire array with a given keyid, if there is one.\<close>

definition last_signature :: "wire_signature list \<Rightarrow> string \<Rightarrow> Signature option" where
  "last_signature ws k =
     (case find (\<lambda>s. w_keyid s = k) (rev ws) of
        None \<Rightarrow> None
      | Some s \<Rightarrow> Some \<lparr> sig_keyID = w_keyid s, sig = w_sig s \<rparr>)"

lemma foldl_update_distinct:
  "distinct (map fst acc) \<Longrightarrow>
   distinct (map fst (foldl (\<lambda>sigs s. AList.update (w_keyid s) (f s) sigs) acc ws))"
  by (induction ws arbitrary: acc) (simp_all add: distinct_update)

lemma find_append_case:
  "find P (xs @ ys) = (case find P xs of None \<Rightarrow> find P ys | Some x \<Rightarrow> Some x)"
  by (induction xs) auto

lemma foldl_update_map_of:
  "map_of (foldl (\<lambda>sigs s. AList.update (w_keyid s) (f s) sigs) acc ws) k =
     (case find (\<lambda>s. w_keyid s = k) (rev ws) of None \<Rightarrow> map_of acc k | Some s \<Rightarrow> Some (f s))"
proof (induction ws arbitrary: acc)
  case Nil
  show ?case by simp
next
  case (Cons w ws)
  show ?case
    by (simp add: Cons.IH find_append_case update_conv' split: option.split)
qed

text \<open>
  C10: the signatures of a parsed metadata document have pairwise different keyids, and
  the signature kept for a keyid is the last entry of the wire array with that keyid.
\<close>

theorem fromJSON_unique_signatures:
  assumes "Metadata_fromJSON signedFromJSON type data = Inr md"
  shows "distinct (map fst (signatures md)) \<and>
         (\<forall>k. map_of (signatures md) k = last_signature (w_signatures data) k)"
proof -
  have s: "signatures md = collect_signatures (w_signatures data)"
    using assms by (auto simp: Metadata_fromJSON_def split: if_splits sum.splits)
  have d: "distinct (map fst (collect_signatures (w_signatures data)))"
    unfolding collect_signatures_def by (rule foldl_update_distinct) simp
  have m: "map_of (collect_signatures (w_signatures data)) k = last_signature (w_signatures data) k"
    for k
    unfolding collect_signatures_def last_signature_def
    by (simp add: foldl_update_map_of split: option.split)
  from s d m show ?thesis by simp
qed

theorem fromJSON_unique_signatures_witness:
  "Metadata_fromJSON (\<lambda>kind. Targets_fromJSON ''2023-01-01T00:00:00.000Z'') KindTargets
     \<lparr> w_signed_type = ''targets'', w_signed = (),
       w_signatures = [\<lparr> w_keyid = ''k1'', w_sig = ''aa'' \<rparr>, \<lparr> w_keyid = ''k2'', w_sig = ''bb'' \<rparr>,
                       \<lparr> w_keyid = ''k1'', w_sig = ''cc'' \<rparr>],
       w_rest = [] \<rparr>
   = Inr \<lparr> signed = TargetsBody \<lparr> specVersion = ''1.20.30'',
                  expires = ''2023-01-01T00:00:00.000Z'', version = 1, unrecognizedFields = [] \<rparr>,
           signatures = [(''k1'', \<lparr> sig_keyID = ''k1'', sig = ''cc'' \<rparr>),
                         (''k2'', \<lparr> sig_keyID = ''k2'', sig = ''bb'' \<rparr>)],
           md_unrecognizedFields = [] \<rparr> \<and>
   distinct (map fst [(''k1'', \<lparr> sig_keyID = ''k1'', sig = ''cc'' \<rparr>),
                      (''k2'', \<lparr> sig_keyID = ''k2'', sig = ''bb'' \<rparr>)]) \<and>
   last_signature [\<lparr> w_keyid = ''k1'', w_sig = ''aa'' \<rparr>, \<lparr> w_keyid = ''k2'', w_sig = ''bb'' \<rparr>,
                   \<lparr> w_keyid = ''k1'', w_sig = ''cc'' \<rparr>] ''k1''
     = Some \<lparr> sig_keyID = ''k1'', sig = ''cc'' \<rparr>"
proof -
  have c: "Metadata_fromJSON (\<lambda>kind. Targets_fromJSON ''2023-01-01T00:00:00.000Z'') KindTargets
     \<lparr> w_signed_type = ''targets'', w_signed = (),
       w_signatures = [\<lparr> w_keyid = ''k1'', w_sig = ''aa'' \<rparr>, \<lparr> w_keyid = ''k2'', w_sig = ''bb'' \<rparr>,
                       \<lparr> w_keyid = ''k1'', w_sig = ''cc'' \<rparr>],
       w_rest = [] \<rparr>
   = Inr \<lparr> signed = TargetsBody \<lparr> specVersion = ''1.20.30'',
                  expires = ''2023-01-01T00:00:00.000Z'', version = 1, unrecognizedFields = [] \<rparr>,
           signatures = [(''k1'', \<lparr> sig_keyID = ''k1'', sig = ''cc'' \<rparr>),
                         (''k2'', \<lparr> sig_keyID = ''k2'', sig = ''bb'' \<rparr>)],
           md_unrecognizedFields = [] \<rparr>"
    by code_simp
  have l: "last_signature [\<lparr> w_keyid = ''k1'', w_sig = ''aa'' \<rparr>, \<lparr> w_keyid = ''k2'', w_sig = ''bb'' \<rparr>,
                   \<lparr> w_keyid = ''k1'', w_sig = ''cc'' \<rparr>] ''k1''
     = Some \<lparr> sig_keyID = ''k1'', sig = ''cc'' \<rparr>"
    using conjunct2 [OF fromJSON_unique_signatures [OF c], THEN spec, of "''k1''"] by simp
  show ?thesis
    using c l fromJSON_unique_signatures [OF c] by simp
qed

subsection \<open>\<^verbatim>\<open>Key.verifySignature\<close> and \<^verbatim>\<open>Metadata.verifyDelegate\<close>\<close>

text \<open>
  \<^verbatim>\<open>signer.verifySignature(keyType, signedData, sig, publicKey)\<close> is the external verifier:
  a parameter, \<open>None\<close> where it throws. The canonical form of a signed body
  (\<^verbatim>\<open>metadata.signed.toJSON()\<close>) is the parameter \<open>toJSON\<close>.
\<close>

type_synonym 'd signer = "string \<Rightarrow> 'd \<Rightarrow> string \<Rightarrow> string \<Rightarrow> bool option"

text \<open>
  \<^verbatim>\<open>Key.verifySignature(metadata)\<close> of the class \<^verbatim>\<open>Key\<close> that models/metadata.ts declares
  next to \<^verbatim>\<open>Metadata\<close>, the one \<^verbatim>\<open>verifyDelegate\<close> calls. \<^verbatim>\<open>signature\<close> is the \<^verbatim>\<open>sig\<close>
  string of the envelope's entry for the key; \<^verbatim>\<open>!signature\<close> holds where there is no
  entry and where the string is empty, \<^verbatim>\<open>!publicKey\<close> for an absent and for an empty
  public key. \<^verbatim>\<open>signedData\<close> is an object, so \<^verbatim>\<open>!signedData\<close> never holds.
\<close>

definition Key_verifySignature ::
  "'d signer \<Rightarrow> ('j MetadataType \<Rightarrow> 'd) \<Rightarrow> Key \<Rightarrow> 'j Metadata \<Rightarrow> error + unit"
where
  "Key_verifySignature signer toJSON this metadata =
     (case map_option sig (map_of (signatures metadata) (keyID this)) of
        None \<Rightarrow> Inl (Error ''No signature for key found in metadata'')
      | Some signature \<Rightarrow>
          if signature = [] then Inl (Error ''No signature for key found in metadata'')
          else
            (case map_of (keyVal this) ''public'' of
               None \<Rightarrow> Inl (Error ''No spublic key found'')
             | Some publicKey \<Rightarrow>
                 if publicKey = [] then Inl (Error ''No spublic key found'')
                 else (case signer (keyType this) (toJSON (signed metadata)) signature publicKey of
                         Some True \<Rightarrow> Inr ()
                       | _ \<Rightarrow> Inl (Error ''Failed to verify signature''))))"

text \<open>
  The later \<^verbatim>\<open>Key.verifySignature\<close> of models/key.ts tests the entry of the envelope, not
  its \<^verbatim>\<open>sig\<close> string, and throws \<^verbatim>\<open>UnsignedMetadataError\<close>.
\<close>

definition Key_verifySignature_key_ts ::
  "'d signer \<Rightarrow> ('j MetadataType \<Rightarrow> 'd) \<Rightarrow> Key \<Rightarrow> 'j Metadata \<Rightarrow> error + unit"
where
  "Key_verifySignature_key_ts signer toJSON this metadata =
     (case map_of (signatures metadata) (keyID this) of
        None \<Rightarrow> Inl (UnsignedMetadataError ''No signature for key found in metadata'')
      | Some signature \<Rightarrow>
          (case map_of (keyVal this) ''public'' of
             None \<Rightarrow> Inl (UnsignedMetadataError ''No public key found'')
           | Some publicKey \<Rightarrow>
               if publicKey = [] then Inl (UnsignedMetadataError ''No public key found'')
               else (case signer (keyType this) (toJSON (signed metadata)) (sig signature) publicKey of
                       Some True \<Rightarrow> Inr ()
                     | _ \<Rightarrow> Inl (UnsignedMetadataError ''Failed to verify signature''))))"

text \<open>\<^verbatim>\<open>Set.prototype.add\<close> on a set kept as the list of its members in insertion order.\<close>

definition Set_add :: "'a \<Rightarrow> 'a list \<Rightarrow> 'a list" where
  "Set_add x xs = (if x \<in> set xs then xs else xs @ [x])"

text \<open>
  The body of \<^verbatim>\<open>role.keyIDs.forEach\<close> in \<^verbatim>\<open>verifyDelegate\<close>, run over the keyids left, with
  the set \<^verbatim>\<open>signingKeys\<close> collected so far. A keyid without a key throws; a key whose
  \<^verbatim>\<open>verifySignature\<close> throws makes the \<^verbatim>\<open>catch\<close> block throw in its turn.
\<close>

fun verify_keyIDs ::
  "'d signer \<Rightarrow> ('j MetadataType \<Rightarrow> 'd) \<Rightarrow> (string \<times> Key) list \<Rightarrow> 'j Metadata \<Rightarrow> string list
     \<Rightarrow> string list \<Rightarrow> error + string list"
where
  "verify_keyIDs signer toJSON keys' delegatedMetadata [] signingKeys = Inr signingKeys"
| "verify_keyIDs signer toJSON keys' delegatedMetadata (kid # rest) signingKeys =
     (case map_of keys' kid of
        None \<Rightarrow> Inl (Error ''No key found for'')
      | Some key \<Rightarrow>
          (case Key_verifySignature signer toJSON key delegatedMetadata of
             Inr _ \<Rightarrow>
               verify_keyIDs signer toJSON keys' delegatedMetadata rest
                 (Set_add (keyID key) signingKeys)
           | Inl e \<Rightarrow> Inl (Error ''Key failed to verify'')))"

text \<open>
  \<^verbatim>\<open>Metadata.verifyDelegate(delegatedRole, delegatedMetadata)\<close>: \<open>Inr ()\<close> where it returns,
  which is where the delegated metadata is accepted.
\<close>

definition verifyDelegate ::
  "'d signer \<Rightarrow> ('j MetadataType \<Rightarrow> 'd) \<Rightarrow> 'j Metadata \<Rightarrow> string \<Rightarrow> 'j Metadata \<Rightarrow> error + unit"
where
  "verifyDelegate signer toJSON this delegatedRole delegatedMetadata =
     (let (role, keys') =
            (case signed this of
               RootBody root \<Rightarrow> (map_of (roles root) delegatedRole, Some (keys root))
             | _ \<Rightarrow> (None, None))
      in case role of
           None \<Rightarrow> Inl (Error ''No delegation fround for'')
         | Some role \<Rightarrow>
             (case keys' of
                None \<Rightarrow> Inl (Error ''No keys found'')
              | Some keys' \<Rightarrow>
                  (case verify_keyIDs signer toJSON keys' delegatedMetadata (keyIDs role) [] of
                     Inl e \<Rightarrow> Inl e
                   | Inr signingKeys \<Rightarrow>
                       if int (length signingKeys) < threshold role
                       then Inl (Error ''was signed by'')
                       else Inr ())))"

text \<open>
  The count of the specification: the distinct keyids of the role's list whose key is in
  the key map and whose signature on the metadata verifies.
\<close>

definition key_verifies ::
  "'d signer \<Rightarrow> ('j MetadataType \<Rightarrow> 'd) \<Rightarrow> (string \<times> Key) list \<Rightarrow> 'j Metadata \<Rightarrow> string \<Rightarrow> bool"
where
  "key_verifies signer toJSON keys' metadata kid \<longleftrightarrow>
     (case map_of keys' kid of
        None \<Rightarrow> False
      | Some key \<Rightarrow> Key_verifySignature signer toJSON key metadata = Inr ())"

definition contributing_count ::
  "'d signer \<Rightarrow> ('j MetadataType \<Rightarrow> 'd) \<Rightarrow> (string \<times> Key) list \<Rightarrow> 'j Metadata \<Rightarrow> string list \<Rightarrow> nat"
where
  "contributing_count signer toJSON keys' metadata kids =
     length (remdups (filter (key_verifies signer toJSON keys' metadata) kids))"

text \<open>
  For the examples: a verifier that accepts the signature \<^verbatim>\<open>signed:<public key>\<close> and no
  other, and a serialisation that forgets the body.
\<close>

definition example_signer :: "unit signer" where
  "example_signer kt d s pk = Some (s = ''signed:'' @ pk)"

definition example_key :: "string \<Rightarrow> Key" where
  "example_key k =
     \<lparr> keyID = k, keyType = ''ed25519'', scheme = ''ed25519'', keyVal = [(''public'', k)] \<rparr>"

definition example_root ::
  "(string \<times> Key) list \<Rightarrow> (string \<times> Role) list \<Rightarrow> unit Metadata" where
  "example_root ks rs =
     \<lparr> signed = RootBody \<lparr> specVersion = ''1.0.31'', expires = ''2030-01-01T00:00:00.000Z'',
                  version = 1, unrecognizedFields = [], keys = ks, roles = rs,
                  consistentSnapshot = False \<rparr>,
       signatures = [], md_unrecognizedFields = [] \<rparr>"

definition example_targets :: "(string \<times> Signature) list \<Rightarrow> unit Metadata" where
  "example_targets sigs =
     \<lparr> signed = TargetsBody \<lparr> specVersion = ''1.0.31'', expires = ''2030-01-01T00:00:00.000Z'',
                  version = 1, unrecognizedFields = [] \<rparr>,
       signatures = sigs, md_unrecognizedFields = [] \<rparr>"

definition example_toJSON :: "unit MetadataType \<Rightarrow> unit" where
  "example_toJSON body = ()"

text \<open>
  The value of \<^verbatim>\<open>key.keyID\<close> that the loop adds for a keyid of the list (the keyid itself
  where the key map has no key for it).
\<close>

definition keyID_of :: "(string \<times> Key) list \<Rightarrow> string \<Rightarrow> string" where
  "keyID_of keys' kid = (case map_of keys' kid of None \<Rightarrow> kid | Some key \<Rightarrow> keyID key)"

lemma set_Set_add: "set (Set_add x xs) = insert x (set xs)"
  by (auto simp: Set_add_def)

lemma distinct_Set_add: "distinct xs \<Longrightarrow> distinct (Set_add x xs)"
  by (simp add: Set_add_def)

lemma verify_keyIDs_Inr:
  assumes "verify_keyIDs signer toJSON ks md kids acc = Inr sk"
  shows "(\<forall>k\<in>set kids. key_verifies signer toJSON ks md k) \<and>
         set sk = set acc \<union> keyID_of ks ` set kids \<and> (distinct acc \<longrightarrow> distinct sk)"
  using assms
proof (induction kids arbitrary: acc)
  case Nil
  then show ?case by simp
next
  case (Cons kid rest)
  from Cons.prems obtain key where
    k: "map_of ks kid = Some key" and
    v: "Key_verifySignature signer toJSON key md = Inr ()" and
    r: "verify_keyIDs signer toJSON ks md rest (Set_add (keyID key) acc) = Inr sk"
    by (auto split: option.splits sum.splits)
  from Cons.IH [OF r] k v show ?case
    by (auto simp: key_verifies_def keyID_of_def set_Set_add distinct_Set_add)
qed

lemma verify_keyIDs_all:
  assumes "\<forall>k\<in>set kids. key_verifies signer toJSON ks md k"
  shows "\<exists>sk. verify_keyIDs signer toJSON ks md kids acc = Inr sk"
  using assms
proof (induction kids arbitrary: acc)
  case Nil
  then show ?case by simp
next
  case (Cons kid rest)
  then show ?case
    by (auto simp: key_verifies_def split: option.splits sum.splits)
qed

lemma contributing_count_all:
  assumes "\<forall>k\<in>set kids. key_verifies signer toJSON ks md k"
  shows "contributing_count signer toJSON ks md kids = card (set kids)"
proof -
  have "filter (key_verifies signer toJSON ks md) kids = kids"
    using assms by (simp add: filter_id_conv)
  then show ?thesis
    by (simp add: contributing_count_def length_remdups_card_conv)
qed

lemma verify_keyIDs_length:
  assumes "verify_keyIDs signer toJSON ks md kids [] = Inr sk"
  shows "length sk = card (keyID_of ks ` set kids)"
    and "length sk \<le> contributing_count signer toJSON ks md kids"
proof -
  from verify_keyIDs_Inr [OF assms]
  have a: "\<forall>k\<in>set kids. key_verifies signer toJSON ks md k"
    and s: "set sk = keyID_of ks ` set kids" and d: "distinct sk"
    by auto
  from d s show l: "length sk = card (keyID_of ks ` set kids)"
    by (metis distinct_card)
  have "card (keyID_of ks ` set kids) \<le> card (set kids)"
    by (rule card_image_le) simp
  with l contributing_count_all [OF a] show "length sk \<le> contributing_count signer toJSON ks md kids"
    by simp
qed


lemma verify_keyIDs_Inr_iff:
  "(\<exists>sk. verify_keyIDs signer toJSON ks md kids acc = Inr sk) \<longleftrightarrow>
     (\<forall>k\<in>set kids. key_verifies signer toJSON ks md k)"
  using verify_keyIDs_Inr [of signer toJSON ks md kids acc] verify_keyIDs_all [of kids signer toJSON ks md acc]
  by blast

text \<open>
  What \<^verbatim>\<open>verifyDelegate\<close> accepts, as the code stands: the delegator is a root that declares
  the role, every keyid of the role has a key whose signature verifies, and the keys'
  own ids, counted once each, reach the threshold.
\<close>

lemma verifyDelegate_accepts_iff:
  "verifyDelegate signer toJSON this delegatedRole md = Inr () \<longleftrightarrow>
     (\<exists>root role. signed this = RootBody root \<and> map_of (roles root) delegatedRole = Some role \<and>
        (\<forall>k\<in>set (keyIDs role). key_verifies signer toJSON (keys root) md k) \<and>
        threshold role \<le> int (card (keyID_of (keys root) ` set (keyIDs role))))"
proof
  assume acc: "verifyDelegate signer toJSON this delegatedRole md = Inr ()"
  then obtain root role sk where
    b: "signed this = RootBody root" and r: "map_of (roles root) delegatedRole = Some role" and
    v: "verify_keyIDs signer toJSON (keys root) md (keyIDs role) [] = Inr sk" and
    t: "\<not> int (length sk) < threshold role"
    by (auto simp: verifyDelegate_def split: MetadataType.splits option.splits sum.splits if_splits)
  from verify_keyIDs_Inr [OF v] verify_keyIDs_length(1) [OF v] t b r
  show "\<exists>root role. signed this = RootBody root \<and> map_of (roles root) delegatedRole = Some role \<and>
        (\<forall>k\<in>set (keyIDs role). key_verifies signer toJSON (keys root) md k) \<and>
        threshold role \<le> int (card (keyID_of (keys root) ` set (keyIDs role)))"
    by auto
next
  assume "\<exists>root role. signed this = RootBody root \<and> map_of (roles root) delegatedRole = Some role \<and>
        (\<forall>k\<in>set (keyIDs role). key_verifies signer toJSON (keys root) md k) \<and>
        threshold role \<le> int (card (keyID_of (keys root) ` set (keyIDs role)))"
  then obtain root role where
    b: "signed this = RootBody root" and r: "map_of (roles root) delegatedRole = Some role" and
    a: "\<forall>k\<in>set (keyIDs role). key_verifies signer toJSON (keys root) md k" and
    t: "threshold role \<le> int (card (keyID_of (keys root) ` set (keyIDs role)))"
    by blast
  from verify_keyIDs_all [OF a] obtain sk where
    v: "verify_keyIDs signer toJSON (keys root) md (keyIDs role) [] = Inr sk" by blast
  from verify_keyIDs_length(1) [OF v] t have "\<not> int (length sk) < threshold role" by simp
  with b r v show "verifyDelegate signer toJSON this delegatedRole md = Inr ()"
    by (simp add: verifyDelegate_def)
qed

text \<open>
  The two \<^verbatim>\<open>Key\<close> classes succeed on the same envelopes, but for an entry whose \<^verbatim>\<open>sig\<close>
  is the empty string, which the one of models/metadata.ts refuses before the verifier
  sees it.
\<close>

lemma Key_verifySignature_key_ts_agree:
  assumes "\<And>s. map_of (signatures md) (keyID k) = Some s \<Longrightarrow> sig s \<noteq> []"
  shows "Key_verifySignature_key_ts signer toJSON k md = Inr () \<longleftrightarrow>
         Key_verifySignature signer toJSON k md = Inr ()"
  using assms
  by (auto simp: Key_verifySignature_key_ts_def Key_verifySignature_def
           split: option.splits if_splits bool.splits)

text \<open>
  \<^verbatim>\<open>verifyDelegate\<close> never accepts below the threshold: what it accepts was checked by a
  root that declares the role, and the count of the specification reaches the threshold.
\<close>

lemma verifyDelegate_sound:
  assumes "verifyDelegate signer toJSON this delegatedRole md = Inr ()"
  shows "\<exists>root role. signed this = RootBody root \<and> map_of (roles root) delegatedRole = Some role \<and>
           threshold role \<le> int (contributing_count signer toJSON (keys root) md (keyIDs role))"
proof -
  from assms obtain root role sk where
    b: "signed this = RootBody root" and r: "map_of (roles root) delegatedRole = Some role" and
    v: "verify_keyIDs signer toJSON (keys root) md (keyIDs role) [] = Inr sk" and
    t: "\<not> int (length sk) < threshold role"
    by (auto simp: verifyDelegate_def split: MetadataType.splits option.splits sum.splits if_splits)
  from verify_keyIDs_length(2) [OF v] t
  have "threshold role \<le> int (contributing_count signer toJSON (keys root) md (keyIDs role))"
    by linarith
  with b r show ?thesis by blast
qed

text \<open>
  The other direction fails. Whatever the threshold and whatever the other keys do, one
  keyid of the role whose key does not verify the metadata (its signature is missing
  from the envelope, or the verifier refuses it) makes \<^verbatim>\<open>verifyDelegate\<close> throw: the
  \<^verbatim>\<open>catch\<close> block around \<^verbatim>\<open>key.verifySignature\<close> throws in its turn, so the loop never
  reaches the next keyid and the comparison of \<^verbatim>\<open>signingKeys.size\<close> with the threshold,
  which the code sets up after the loop, only ever sees all the keyids of the role.
\<close>

lemma verifyDelegate_failed_key:
  assumes "signed this = RootBody root" and "map_of (roles root) delegatedRole = Some role"
    and "k \<in> set (keyIDs role)" and "\<not> key_verifies signer toJSON (keys root) md k"
  shows "\<exists>e. verifyDelegate signer toJSON this delegatedRole md = Inl e"
proof -
  have "verifyDelegate signer toJSON this delegatedRole md \<noteq> Inr ()"
    using assms verifyDelegate_accepts_iff [of signer toJSON this delegatedRole md] by auto
  then show ?thesis
    by (cases "verifyDelegate signer toJSON this delegatedRole md") auto
qed

text \<open>
  A keyid of the role with no key in the key map of the root ends the verification too,
  by the guard at the head of the loop; the specification asks for that.
\<close>

lemma verifyDelegate_missing_key:
  "verifyDelegate example_signer example_toJSON
     (example_root [(''k1'', example_key ''k1'')]
        [(''targets'', \<lparr> keyIDs = [''k1'', ''k2''], threshold = 1 \<rparr>)])
     ''targets'' (example_targets [(''k1'', \<lparr> sig_keyID = ''k1'', sig = ''signed:k1'' \<rparr>)])
   = Inl (Error ''No key found for'')"
  by code_simp

text \<open>
  C1 does not hold of the code. The root declares the role \<^verbatim>\<open>targets\<close> with the keyids
  \<^verbatim>\<open>k1\<close> and \<^verbatim>\<open>k2\<close>, both with a key in its key map, and the threshold 1. Metadata with
  the valid signature of \<^verbatim>\<open>k1\<close> and no signature of \<^verbatim>\<open>k2\<close> has one keyid of the role
  whose signature verifies, which meets the threshold, and \<^verbatim>\<open>verifyDelegate\<close> throws; so
  it does for metadata with the valid signature of \<^verbatim>\<open>k1\<close> and a signature of \<^verbatim>\<open>k2\<close> that
  the verifier refuses. With both signatures valid the same metadata is accepted.
\<close>

theorem verifyDelegate_failed_key_fatal:
  "verifyDelegate example_signer example_toJSON
     (example_root [(''k1'', example_key ''k1''), (''k2'', example_key ''k2'')]
        [(''targets'', \<lparr> keyIDs = [''k1'', ''k2''], threshold = 1 \<rparr>)])
     ''targets'' (example_targets [(''k1'', \<lparr> sig_keyID = ''k1'', sig = ''signed:k1'' \<rparr>)])
   = Inl (Error ''Key failed to verify'') \<and>
   contributing_count example_signer example_toJSON
     [(''k1'', example_key ''k1''), (''k2'', example_key ''k2'')]
     (example_targets [(''k1'', \<lparr> sig_keyID = ''k1'', sig = ''signed:k1'' \<rparr>)]) [''k1'', ''k2''] = 1 \<and>
   verifyDelegate example_signer example_toJSON
     (example_root [(''k1'', example_key ''k1''), (''k2'', example_key ''k2'')]
        [(''targets'', \<lparr> keyIDs = [''k1'', ''k2''], threshold = 1 \<rparr>)])
     ''targets'' (example_targets [(''k1'', \<lparr> sig_keyID = ''k1'', sig = ''signed:k1'' \<rparr>),
                                   (''k2'', \<lparr> sig_keyID = ''k2'', sig = ''forged'' \<rparr>)])
   = Inl (Error ''Key failed to verify'') \<and>
   contributing_count example_signer example_toJSON
     [(''k1'', example_key ''k1''), (''k2'', example_key ''k2'')]
     (example_targets [(''k1'', \<lparr> sig_keyID = ''k1'', sig = ''signed:k1'' \<rparr>),
                       (''k2'', \<lparr> sig_keyID = ''k2'', sig = ''forged'' \<rparr>)]) [''k1'', ''k2''] = 1 \<and>
   verifyDelegate example_signer example_toJSON
     (example_root [(''k1'', example_key ''k1''), (''k2'', example_key ''k2'')]
        [(''targets'', \<lparr> keyIDs = [''k1'', ''k2''], threshold = 1 \<rparr>)])
     ''targets'' (example_targets [(''k1'', \<lparr> sig_keyID = ''k1'', sig = ''signed:k1'' \<rparr>),
                                   (''k2'', \<lparr> sig_keyID = ''k2'', sig = ''signed:k2'' \<rparr>)])
   = Inr ()"
  by code_simp

section \<open>Bounded fetch (fetcher.ts)\<close>

text \<open>
  A buffer is its list of bytes. The readable stream that \<^verbatim>\<open>fetch\<close> resolves to is the list
  of what the \<^verbatim>\<open>for await\<close> loop gets from it until it ends: a chunk (\<open>Inr\<close>), or an error
  that the stream raises (\<open>Inl\<close>), after which nothing is read. \<^verbatim>\<open>fetch\<close> itself may fail.
  The cap \<^verbatim>\<open>maxLength\<close> is a length, a natural number.
\<close>

type_synonym Buffer = "char list"

type_synonym ReadableStream = "(error + Buffer) list"

text \<open>
  The loop of \<^verbatim>\<open>downloadBytes\<close>, on what is left of the stream, with
  \<^verbatim>\<open>numberOfBytesReceived\<close> and \<^verbatim>\<open>chunks\<close> as they stand.
\<close>

fun read_chunks :: "nat \<Rightarrow> nat \<Rightarrow> Buffer list \<Rightarrow> ReadableStream \<Rightarrow> error + Buffer list" where
  "read_chunks maxLength numberOfBytesReceived chunks [] = Inr chunks"
| "read_chunks maxLength numberOfBytesReceived chunks (Inl e # reader) = Inl e"
| "read_chunks maxLength numberOfBytesReceived chunks (Inr bufferChunk # reader) =
     (let numberOfBytesReceived' = numberOfBytesReceived + length bufferChunk
      in if numberOfBytesReceived' > maxLength then Inl (Error ''Max length reached'')
         else read_chunks maxLength numberOfBytesReceived' (chunks @ [bufferChunk]) reader)"

text \<open>\<^verbatim>\<open>FetcherInterface.downloadBytes(url, maxLength)\<close> over the abstract \<^verbatim>\<open>fetch\<close>.\<close>

definition downloadBytes ::
  "(string \<Rightarrow> error + ReadableStream) \<Rightarrow> string \<Rightarrow> nat \<Rightarrow> error + Buffer"
where
  "downloadBytes fetch url maxLength =
     (case fetch url of
        Inl e \<Rightarrow> Inl e
      | Inr reader \<Rightarrow>
          (case read_chunks maxLength 0 [] reader of
             Inl e \<Rightarrow> Inl e
           | Inr chunks \<Rightarrow> Inr (concat chunks)))"

text \<open>For the examples: a remote that serves the given streams under their URLs.\<close>

definition serve :: "(string \<times> ReadableStream) list \<Rightarrow> string \<Rightarrow> error + ReadableStream" where
  "serve files url = (case map_of files url of None \<Rightarrow> Inl (Error ''404'') | Some r \<Rightarrow> Inr r)"

lemma read_chunks_bounded:
  "read_chunks m n acc r = Inr chunks \<Longrightarrow> n = length (concat acc) \<Longrightarrow> n \<le> m \<Longrightarrow>
     length (concat chunks) \<le> m"
proof (induction m n acc r rule: read_chunks.induct)
  case (1 m n acc)
  then show ?case by simp
next
  case (2 m n acc e r)
  then show ?case by simp
next
  case (3 m n acc c r)
  from "3.prems"(1) have le: "n + length c \<le> m"
    by (simp add: Let_def split: if_splits)
  with "3.prems"(1) have "read_chunks m (n + length c) (acc @ [c]) r = Inr chunks"
    by (simp add: Let_def)
  moreover have "n + length c = length (concat (acc @ [c]))"
    using "3.prems"(2) by simp
  ultimately show ?case
    using "3.IH" [of "n + length c"] le by simp
qed

lemma read_chunks_within:
  "n + length (concat cs) \<le> m \<Longrightarrow> read_chunks m n acc (map Inr cs) = Inr (acc @ cs)"
  by (induction cs arbitrary: n acc) (simp_all add: Let_def)

lemma read_chunks_exceeds:
  "m < n + length (concat cs) \<Longrightarrow> n \<le> m \<Longrightarrow>
     read_chunks m n acc (map Inr cs @ rest) = Inl (Error ''Max length reached'')"
  by (induction cs arbitrary: n acc) (simp_all add: Let_def)

text \<open>
  C5: a buffer that \<^verbatim>\<open>downloadBytes\<close> returns is no longer than \<^verbatim>\<open>maxLength\<close>; a stream
  whose chunks add up to \<^verbatim>\<open>maxLength\<close> bytes or fewer is returned whole; and once the
  chunks received add up to more than \<^verbatim>\<open>maxLength\<close> the call fails with the length error,
  whatever the stream holds after them.
\<close>

theorem downloadBytes_bounded:
  "(downloadBytes fetch url maxLength = Inr buf \<longrightarrow> length buf \<le> maxLength) \<and>
   (fetch url = Inr (map Inr cs) \<and> length (concat cs) \<le> maxLength \<longrightarrow>
      downloadBytes fetch url maxLength = Inr (concat cs)) \<and>
   (fetch url = Inr (map Inr cs @ rest) \<and> maxLength < length (concat cs) \<longrightarrow>
      downloadBytes fetch url maxLength = Inl (Error ''Max length reached''))"
proof (intro conjI impI)
  assume "downloadBytes fetch url maxLength = Inr buf"
  then obtain reader chunks where
    "read_chunks maxLength 0 [] reader = Inr chunks" and "buf = concat chunks"
    by (auto simp: downloadBytes_def split: sum.splits)
  then show "length buf \<le> maxLength"
    using read_chunks_bounded [of maxLength 0 "[]" reader chunks] by simp
next
  assume "fetch url = Inr (map Inr cs) \<and> length (concat cs) \<le> maxLength"
  then show "downloadBytes fetch url maxLength = Inr (concat cs)"
    using read_chunks_within [of 0 cs maxLength "[]"] by (simp add: downloadBytes_def)
next
  assume "fetch url = Inr (map Inr cs @ rest) \<and> maxLength < length (concat cs)"
  then show "downloadBytes fetch url maxLength = Inl (Error ''Max length reached'')"
    using read_chunks_exceeds [of maxLength 0 cs "[]" rest] by (simp add: downloadBytes_def)
qed

theorem downloadBytes_bounded_witness:
  "downloadBytes (serve [(''u'', [Inr ''abc'', Inr ''de''])]) ''u'' 5 = Inr ''abcde'' \<and>
   length ''abcde'' \<le> (5 :: nat) \<and>
   downloadBytes (serve [(''u'', [Inr ''abc'', Inr ''de'', Inr ''f''])]) ''u'' 4
     = Inl (Error ''Max length reached'')"
proof -
  have f1: "serve [(''u'', [Inr ''abc'', Inr ''de''])] ''u'' = Inr (map Inr [''abc'', ''de''])"
    by (simp add: serve_def)
  have f2: "serve [(''u'', [Inr ''abc'', Inr ''de'', Inr ''f''])] ''u''
              = Inr (map Inr [''abc'', ''de''] @ [Inr ''f''])"
    by (simp add: serve_def)
  have d: "downloadBytes (serve [(''u'', [Inr ''abc'', Inr ''de''])]) ''u'' 5 = Inr ''abcde''"
    using downloadBytes_bounded [of "serve [(''u'', [Inr ''abc'', Inr ''de''])]" "''u''" 5
        "''abcde''" "[''abc'', ''de'']" "[]"] f1
    by simp
  show ?thesis
    using d downloadBytes_bounded [of "serve [(''u'', [Inr ''abc'', Inr ''de''])]" "''u''" 5
        "''abcde''" "[''abc'', ''de'']" "[]"]
      downloadBytes_bounded [of "serve [(''u'', [Inr ''abc'', Inr ''de'', Inr ''f''])]" "''u''" 4
        "''abcde''" "[''abc'', ''de'']" "[Inr ''f'']"] f2
    by simp
qed

section \<open>The updater (updater.ts)\<close>

subsection \<open>Data\<close>

text \<open>\<^verbatim>\<open>`${n}`\<close> for an integer: its decimal numeral.\<close>

definition digit_char :: "nat \<Rightarrow> char" where
  "digit_char d = ''0123456789'' ! d"

fun string_of_nat :: "nat \<Rightarrow> string" where
  "string_of_nat n =
     (if n < 10 then [digit_char n] else string_of_nat (n div 10) @ [digit_char (n mod 10)])"

declare string_of_nat.simps [simp del]

definition string_of_int :: "int \<Rightarrow> string" where
  "string_of_int i = (if i < 0 then CHR ''-'' # string_of_nat (nat (- i)) else string_of_nat (nat i))"

text \<open>
  \<^verbatim>\<open>path.join(a, b)\<close> of Node.js, for POSIX paths: the arguments that are not empty are
  joined by a slash and the result is normalised. \<^verbatim>\<open>path.normalize\<close> drops the empty
  segments and the segments \<^verbatim>\<open>.\<close>; a segment \<^verbatim>\<open>..\<close> takes away the segment before it, and
  stays where there is none to take and the path is relative; a slash at the head and one
  at the end are kept. So the two slashes of \<^verbatim>\<open>http://repo\<close> become one.
\<close>

fun normalizeString :: "bool \<Rightarrow> string list \<Rightarrow> string list \<Rightarrow> string list" where
  "normalizeString allowAboveRoot res [] = rev res"
| "normalizeString allowAboveRoot res (segment # segments) =
     (if segment = [] \<or> segment = ''.'' then normalizeString allowAboveRoot res segments
      else if segment = ''..''
      then (if res \<noteq> [] \<and> hd res \<noteq> ''..'' then normalizeString allowAboveRoot (tl res) segments
            else if allowAboveRoot then normalizeString allowAboveRoot (segment # res) segments
            else normalizeString allowAboveRoot res segments)
      else normalizeString allowAboveRoot (segment # res) segments)"

definition path_normalize :: "string \<Rightarrow> string" where
  "path_normalize p =
     (if p = [] then ''.''
      else (let isAbsolute = (hd p = CHR ''/'');
                trailingSeparator = (last p = CHR ''/'');
                p' = join ''/'' (normalizeString (\<not> isAbsolute) [] (split CHR ''/'' p))
            in if p' = []
               then (if isAbsolute then ''/'' else if trailingSeparator then ''./'' else ''.'')
               else (if isAbsolute then ''/'' else []) @ p' @
                    (if trailingSeparator then ''/'' else [])))"

definition path_join :: "string \<Rightarrow> string \<Rightarrow> string" where
  "path_join a b =
     (let joined = join ''/'' (filter (\<lambda>arg. arg \<noteq> []) [a, b])
      in if joined = [] then ''.'' else path_normalize joined)"

text \<open>
  The configuration (utils/config.ts is not among the sources; these are the fields that
  the updater reads). The two counts are JavaScript numbers, taken as integers.
\<close>

record Config =
  maxRootRotations :: int
  maxDelegations :: int
  rootMaxLength :: nat
  timestampMaxLength :: nat
  snapshotMaxLength :: nat
  targetsMaxLength :: nat

text \<open>
  The trusted metadata as far as the updater reads it (store.ts and the newer models are
  not among the sources): the version and the \<^verbatim>\<open>consistentSnapshot\<close> flag of the root, the
  \<^verbatim>\<open>snapshotMeta\<close> of the timestamp, the \<^verbatim>\<open>meta\<close> of the snapshot, and the targets roles
  that \<^verbatim>\<open>getRole\<close> returns. A \<^verbatim>\<open>Delegations\<close> object is its method \<^verbatim>\<open>rolesForTarget\<close>, from
  a target path to the list of the matching roles with their \<^verbatim>\<open>terminating\<close> flags, in
  the order of the delegation.
\<close>

record MetaFile =
  mf_version :: int
  mf_length :: "nat option"

record TargetFile =
  tf_path :: string
  tf_length :: nat
  tf_hashes :: "(string \<times> string) list"

record TargetsSigned =
  tg_version :: int
  tg_targets :: "(string \<times> TargetFile) list option"
  tg_delegations :: "(string \<Rightarrow> (string \<times> bool) list) option"

record TimestampSigned =
  tm_version :: int
  tm_snapshotMeta :: MetaFile

record SnapshotSigned =
  sn_version :: int
  sn_meta :: "(string \<times> MetaFile) list"

record TrustedMetadataStore =
  root_version :: int
  root_consistentSnapshot :: bool
  ts_timestamp :: "TimestampSigned option"
  ts_snapshot :: "SnapshotSigned option"
  ts_roles :: "(string \<times> TargetsSigned) list"

definition getRole :: "TrustedMetadataStore \<Rightarrow> string \<Rightarrow> TargetsSigned option" where
  "getRole ts name = map_of (ts_roles ts) name"

text \<open>
  What the updater is given and does not define: \<^verbatim>\<open>fetch\<close> of the fetcher,
  \<^verbatim>\<open>fs.writeFileSync\<close>, and the four update operations of the trusted set, each from the
  trusted set and the bytes to the new trusted set or to the error it throws.
\<close>

type_synonym FileSystem = "(string \<times> Buffer) list"

record Env =
  fetch :: "string \<Rightarrow> error + ReadableStream"
  writeFileSync :: "FileSystem \<Rightarrow> string \<Rightarrow> Buffer \<Rightarrow> error + FileSystem"
  updateRoot :: "TrustedMetadataStore \<Rightarrow> Buffer \<Rightarrow> error + TrustedMetadataStore"
  updateTimestamp :: "TrustedMetadataStore \<Rightarrow> Buffer \<Rightarrow> error + TrustedMetadataStore"
  updateSnapshot :: "TrustedMetadataStore \<Rightarrow> Buffer \<Rightarrow> bool \<Rightarrow> error + TrustedMetadataStore"
  updateDelegatedTargets ::
    "TrustedMetadataStore \<Rightarrow> Buffer \<Rightarrow> string \<Rightarrow> string \<Rightarrow> error + TrustedMetadataStore"

text \<open>
  The fields of an \<^verbatim>\<open>Updater\<close> that the methods modelled here read, and with them the
  two things outside it that these methods change: the files of the local metadata
  directory, and the URLs requested from the remote so far (the latest last).
\<close>

record Updater =
  dir :: string
  metadataBaseUrl :: string
  trustedSet :: TrustedMetadataStore
  config :: Config
  files :: FileSystem
  requests :: "string list"

subsection \<open>Reading, fetching and persisting\<close>

text \<open>\<^verbatim>\<open>loadLocalMetadata(fileName)\<close>: \<^verbatim>\<open>fs.readFileSync\<close> throws where there is no file.\<close>

definition loadLocalMetadata :: "Updater \<Rightarrow> string \<Rightarrow> error + Buffer" where
  "loadLocalMetadata u fileName =
     (case map_of (files u) (path_join (dir u) (fileName @ ''.json'')) of
        None \<Rightarrow> Inl (Error ''ENOENT'')
      | Some data \<Rightarrow> Inr data)"

text \<open>
  \<^verbatim>\<open>persistMetadata(metaDataName, bytesData)\<close>. The function has no \<^verbatim>\<open>await\<close>, so the write
  is done when the call comes back; no caller awaits the promise it returns, so the
  \<^verbatim>\<open>PersistError\<close> of a failed write reaches nobody, and the file is left as it was. What
  is written is the text of the bytes; the model keeps the bytes.
\<close>

definition persistMetadata :: "Env \<Rightarrow> Updater \<Rightarrow> string \<Rightarrow> Buffer \<Rightarrow> Updater" where
  "persistMetadata env u metaDataName bytesData =
     (case writeFileSync env (files u) (path_join (dir u) (metaDataName @ ''.json'')) bytesData of
        Inl e \<Rightarrow> u
      | Inr fs' \<Rightarrow> u\<lparr> files := fs' \<rparr>)"

text \<open>\<^verbatim>\<open>await this.fetcher.downloadBytes(url, maxLength)\<close>, with the request noted.\<close>

definition fetcher_downloadBytes :: "Env \<Rightarrow> Updater \<Rightarrow> string \<Rightarrow> nat \<Rightarrow> Updater \<times> (error + Buffer)" where
  "fetcher_downloadBytes env u url maxLength =
     (u\<lparr> requests := requests u @ [url] \<rparr>, downloadBytes (fetch env) url maxLength)"

subsection \<open>\<^verbatim>\<open>loadRoot\<close>\<close>

text \<open>
  The \<^verbatim>\<open>for\<close> loop of \<^verbatim>\<open>loadRoot\<close> from \<^verbatim>\<open>version\<close> on. A failure of the download or of
  \<^verbatim>\<open>updateRoot\<close> is caught and breaks the loop.
\<close>

function loadRoot_loop :: "Env \<Rightarrow> int \<Rightarrow> int \<Rightarrow> Updater \<Rightarrow> Updater" where
  "loadRoot_loop env upperBound version' u =
     (if version' \<le> upperBound
      then (let url = path_join (metadataBaseUrl u) (string_of_int version' @ ''.root.json'');
                (u1, r) = fetcher_downloadBytes env u url (rootMaxLength (config u))
            in case r of
                 Inl e \<Rightarrow> u1
               | Inr bytesData \<Rightarrow>
                   (case updateRoot env (trustedSet u1) bytesData of
                      Inl e \<Rightarrow> u1
                    | Inr ts' \<Rightarrow>
                        loadRoot_loop env upperBound (version' + 1)
                          (persistMetadata env (u1\<lparr> trustedSet := ts' \<rparr>) ''root'' bytesData)))
      else u)"
  by pat_completeness auto
termination
  by (relation "measure (\<lambda>(env, upperBound, version', u). nat (upperBound + 1 - version'))") auto

declare loadRoot_loop.simps [simp del]

definition loadRoot :: "Env \<Rightarrow> Updater \<Rightarrow> Updater" where
  "loadRoot env u =
     (let rootVersion = root_version (trustedSet u);
          lowerBound = rootVersion + 1;
          upperBound = lowerBound + maxRootRotations (config u)
      in loadRoot_loop env upperBound lowerBound u)"

subsection \<open>\<^verbatim>\<open>loadTimestamp\<close>, \<^verbatim>\<open>loadSnapshot\<close>, \<^verbatim>\<open>loadTargets\<close>, \<^verbatim>\<open>refresh\<close>\<close>

text \<open>
  The first \<^verbatim>\<open>try\<close> block of \<^verbatim>\<open>loadTimestamp\<close>: the local timestamp is taken where it
  loads and updates; any error is caught and ignored.
\<close>

definition loadTimestamp_local :: "Env \<Rightarrow> Updater \<Rightarrow> Updater" where
  "loadTimestamp_local env u =
     (case loadLocalMetadata u ''timestamp'' of
        Inl e \<Rightarrow> u
      | Inr data \<Rightarrow>
          (case updateTimestamp env (trustedSet u) data of
             Inl e \<Rightarrow> u
           | Inr ts' \<Rightarrow> u\<lparr> trustedSet := ts' \<rparr>))"

text \<open>
  \<^verbatim>\<open>loadTimestamp\<close>: an error of the download is thrown on; an \<^verbatim>\<open>EqualVersionError\<close> of
  \<^verbatim>\<open>updateTimestamp\<close> makes it return before \<^verbatim>\<open>persistMetadata\<close>, any other error is
  thrown again.
\<close>

definition loadTimestamp :: "Env \<Rightarrow> Updater \<Rightarrow> error + Updater" where
  "loadTimestamp env u =
     (let u1 = loadTimestamp_local env u;
          url = path_join (metadataBaseUrl u1) ''timestamp.json'';
          (u2, r) = fetcher_downloadBytes env u1 url (timestampMaxLength (config u1))
      in case r of
           Inl e \<Rightarrow> Inl e
         | Inr bytesData \<Rightarrow>
             (case updateTimestamp env (trustedSet u2) bytesData of
                Inl e \<Rightarrow> (case e of EqualVersionError m \<Rightarrow> Inr u2 | _ \<Rightarrow> Inl e)
              | Inr ts' \<Rightarrow>
                  Inr (persistMetadata env (u2\<lparr> trustedSet := ts' \<rparr>) ''timestamp'' bytesData)))"

text \<open>\<^verbatim>\<open>length || dflt\<close> for an optional length: an absent length and the length 0 are falsy.\<close>

definition or_length :: "nat option \<Rightarrow> nat \<Rightarrow> nat" where
  "or_length a b = (case a of None \<Rightarrow> b | Some n \<Rightarrow> if n = 0 then b else n)"

text \<open>
  The file name of versioned metadata: \<^verbatim>\<open>version ? `${version}.${name}.json` : `${name}.json`\<close>
  where \<^verbatim>\<open>version\<close> is \<^verbatim>\<open>undefined\<close> without consistent snapshots; the version 0 is falsy too.
\<close>

definition versioned_name :: "bool \<Rightarrow> int \<Rightarrow> string \<Rightarrow> string" where
  "versioned_name consistent v name =
     (if consistent \<and> v \<noteq> 0 then string_of_int v @ ''.'' @ name @ ''.json'' else name @ ''.json'')"

definition loadSnapshot :: "Env \<Rightarrow> Updater \<Rightarrow> error + Updater" where
  "loadSnapshot env u =
     (case (case loadLocalMetadata u ''snapshot'' of
              Inl e \<Rightarrow> Inl e
            | Inr data \<Rightarrow> updateSnapshot env (trustedSet u) data True) of
        Inr ts' \<Rightarrow> Inr (u\<lparr> trustedSet := ts' \<rparr>)
      | Inl e \<Rightarrow>
          (case ts_timestamp (trustedSet u) of
             None \<Rightarrow> Inl (ReferenceError ''No timestamp metadata'')
           | Some timestamp \<Rightarrow>
               (let snapshotMeta = tm_snapshotMeta timestamp;
                    maxLength = or_length (mf_length snapshotMeta) (snapshotMaxLength (config u));
                    url = path_join (metadataBaseUrl u)
                            (versioned_name (root_consistentSnapshot (trustedSet u))
                               (mf_version snapshotMeta) ''snapshot'');
                    (u1, r) = fetcher_downloadBytes env u url maxLength
                in case r of
                     Inl e \<Rightarrow> Inl (RuntimeError ''Unable to load snapshot metadata error'')
                   | Inr bytesData \<Rightarrow>
                       (case updateSnapshot env (trustedSet u1) bytesData False of
                          Inl e \<Rightarrow> Inl (RuntimeError ''Unable to load snapshot metadata error'')
                        | Inr ts' \<Rightarrow>
                            Inr (persistMetadata env (u1\<lparr> trustedSet := ts' \<rparr>) ''snapshot''
                                   bytesData)))))"

text \<open>
  \<^verbatim>\<open>loadTargets(role, parentRole)\<close>: the updater as it leaves it, and the metadata of the
  role or \<^verbatim>\<open>undefined\<close>. Reading \<^verbatim>\<open>metaInfo.length\<close> of a role that the snapshot does not
  list throws a \<^verbatim>\<open>TypeError\<close>.
\<close>

definition loadTargets ::
  "Env \<Rightarrow> Updater \<Rightarrow> string \<Rightarrow> string \<Rightarrow> error + Updater \<times> TargetsSigned option"
where
  "loadTargets env u role parentRole =
     (case getRole (trustedSet u) role of
        Some md \<Rightarrow> Inr (u, Some md)
      | None \<Rightarrow>
          (case (case loadLocalMetadata u role of
                   Inl e \<Rightarrow> Inl e
                 | Inr buffer \<Rightarrow> updateDelegatedTargets env (trustedSet u) buffer role parentRole) of
             Inr ts' \<Rightarrow> Inr (u\<lparr> trustedSet := ts' \<rparr>, getRole ts' role)
           | Inl e \<Rightarrow>
               (case ts_snapshot (trustedSet u) of
                  None \<Rightarrow> Inl (ReferenceError ''No snapshot metadata'')
                | Some snapshot \<Rightarrow>
                    (case map_of (sn_meta snapshot) (role @ ''.json'') of
                       None \<Rightarrow> Inl (TypeError ''Cannot read properties of undefined'')
                     | Some metaInfo \<Rightarrow>
                         (let maxLength =
                                or_length (mf_length metaInfo) (targetsMaxLength (config u));
                              url = path_join (metadataBaseUrl u)
                                      (versioned_name (root_consistentSnapshot (trustedSet u))
                                         (mf_version metaInfo) role);
                              (u1, r) = fetcher_downloadBytes env u url maxLength
                          in case r of
                               Inl e \<Rightarrow> Inl (RuntimeError ''Unable to load targets error'')
                             | Inr bytesData \<Rightarrow>
                                 (case updateDelegatedTargets env (trustedSet u1) bytesData role
                                         parentRole of
                                    Inl e \<Rightarrow> Inl (RuntimeError ''Unable to load targets error'')
                                  | Inr ts' \<Rightarrow>
                                      Inr (persistMetadata env (u1\<lparr> trustedSet := ts' \<rparr>) role
                                             bytesData,
                                           getRole ts' role)))))))"

text \<open>
  \<^verbatim>\<open>refresh()\<close>: the four steps in their order; the first error ends it.
  \<open>refresh_snapshot_targets\<close> is its second half, the steps after the timestamp.
\<close>

definition refresh_snapshot_targets :: "Env \<Rightarrow> Updater \<Rightarrow> error + Updater" where
  "refresh_snapshot_targets env u2 =
     (case loadSnapshot env u2 of
        Inl e \<Rightarrow> Inl e
      | Inr u3 \<Rightarrow>
          (case loadTargets env u3 ''targets'' ''root'' of
             Inl e \<Rightarrow> Inl e
           | Inr (u4, md) \<Rightarrow> Inr u4))"

definition refresh :: "Env \<Rightarrow> Updater \<Rightarrow> error + Updater" where
  "refresh env u =
     (case loadTimestamp env (loadRoot env u) of
        Inl e \<Rightarrow> Inl e
      | Inr u2 \<Rightarrow> refresh_snapshot_targets env u2)"

lemma persistMetadata_frame [simp]:
  "config (persistMetadata env u n b) = config u"
  "trustedSet (persistMetadata env u n b) = trustedSet u"
  "requests (persistMetadata env u n b) = requests u"
  "metadataBaseUrl (persistMetadata env u n b) = metadataBaseUrl u"
  "dir (persistMetadata env u n b) = dir u"
  by (simp_all add: persistMetadata_def split: sum.splits)

lemma fetcher_downloadBytes_frame [simp]:
  "config (fst (fetcher_downloadBytes env u url n)) = config u"
  "trustedSet (fst (fetcher_downloadBytes env u url n)) = trustedSet u"
  "files (fst (fetcher_downloadBytes env u url n)) = files u"
  "requests (fst (fetcher_downloadBytes env u url n)) = requests u @ [url]"
  "snd (fetcher_downloadBytes env u url n) = downloadBytes (fetch env) url n"
  by (simp_all add: fetcher_downloadBytes_def)

lemma loadTargets_config:
  "loadTargets env u role parentRole = Inr (u', md) \<Longrightarrow> config u' = config u"
  by (auto simp: loadTargets_def Let_def fetcher_downloadBytes_def
           split: option.splits sum.splits prod.splits)

subsection \<open>The walk over the delegations\<close>

text \<open>
  A \<^verbatim>\<open>Delegation\<close> is the pair of \<^verbatim>\<open>roleName\<close> and \<^verbatim>\<open>parentRoleName\<close>. The array
  \<^verbatim>\<open>delegationsToVisit\<close> is used as a stack whose top is its last element; the model keeps
  it from the top, so that \<^verbatim>\<open>pop()\<close> takes the head, and pushing the reversed array
  \<^verbatim>\<open>childRolesToVisit\<close> puts the children in their order in front. The set
  \<^verbatim>\<open>visitedRoleNames\<close> is the list of its members. \<open>consulted\<close> is not a variable of the
  code: it notes, in their order, the delegations that \<^verbatim>\<open>loadTargets\<close> was called for.
\<close>

type_synonym Delegation = "string \<times> string"

record WalkState =
  w_updater :: Updater
  delegationsToVisit :: "Delegation list"
  visitedRoleNames :: "string list"
  consulted :: "Delegation list"

text \<open>
  The \<^verbatim>\<open>for ... of rolesForTarget\<close> loop: \<^verbatim>\<open>childRolesToVisit\<close> when it ends, and whether it
  ended at a terminating role (where \<^verbatim>\<open>delegationsToVisit.splice(0)\<close> empties the stack).
\<close>

fun collect_children :: "string \<Rightarrow> (string \<times> bool) list \<Rightarrow> Delegation list \<times> bool" where
  "collect_children roleName [] = ([], False)"
| "collect_children roleName ((childName, terminating) # rest) =
     (if terminating then ([(childName, roleName)], True)
      else (case collect_children roleName rest of
              (children, terminated) \<Rightarrow> ((childName, roleName) # children, terminated)))"

text \<open>
  The block \<^verbatim>\<open>if (targets.delegations) { ... }\<close>: the stack after it, from the stack
  before it, for the role \<^verbatim>\<open>roleName\<close> whose metadata \<^verbatim>\<open>targets\<close> is at hand.
\<close>

definition push_children ::
  "string \<Rightarrow> string \<Rightarrow> TargetsSigned \<Rightarrow> Delegation list \<Rightarrow> Delegation list"
where
  "push_children targetPath roleName targets stack =
     (case tg_delegations targets of
        None \<Rightarrow> stack
      | Some rolesForTarget \<Rightarrow>
          (case collect_children roleName (rolesForTarget targetPath) of
             (childRolesToVisit, terminated) \<Rightarrow>
               childRolesToVisit @ (if terminated then [] else stack)))"

text \<open>\<^verbatim>\<open>targets.targets?.[targetPath]\<close>\<close>

definition lookup_target :: "TargetsSigned \<Rightarrow> string \<Rightarrow> TargetFile option" where
  "lookup_target targets targetPath =
     (case tg_targets targets of None \<Rightarrow> None | Some ts \<Rightarrow> map_of ts targetPath)"

text \<open>
  One iteration of the \<^verbatim>\<open>while\<close> loop of \<^verbatim>\<open>preorderDepthFirstWalk\<close>, from the test of its
  condition: \<open>Inl\<close> where the loop is left (the condition fails, the target is found and
  returned, or \<^verbatim>\<open>loadTargets\<close> throws), with the state and the outcome; \<open>Inr\<close> with the
  state for the next iteration otherwise.
\<close>

definition walk_step ::
  "Env \<Rightarrow> string \<Rightarrow> WalkState \<Rightarrow> WalkState \<times> (error + TargetFile option) + WalkState"
where
  "walk_step env targetPath w =
     (if int (length (visitedRoleNames w)) \<le> maxDelegations (config (w_updater w)) \<and>
         delegationsToVisit w \<noteq> []
      then (let roleName = fst (hd (delegationsToVisit w));
                parentRoleName = snd (hd (delegationsToVisit w));
                w1 = w\<lparr> delegationsToVisit := tl (delegationsToVisit w) \<rparr>
            in if roleName \<in> set (visitedRoleNames w1) then Inr w1
               else (let w2 = w1\<lparr> consulted := consulted w1 @ [(roleName, parentRoleName)] \<rparr>
                     in case loadTargets env (w_updater w2) roleName parentRoleName of
                          Inl e \<Rightarrow> Inl (w2, Inl e)
                        | Inr (u', md) \<Rightarrow>
                            (case md of
                               None \<Rightarrow> Inr (w2\<lparr> w_updater := u' \<rparr>)
                             | Some targets \<Rightarrow>
                                 (case lookup_target targets targetPath of
                                    Some target \<Rightarrow> Inl (w2\<lparr> w_updater := u' \<rparr>, Inr (Some target))
                                  | None \<Rightarrow>
                                      Inr (w2\<lparr> w_updater := u',
                                                visitedRoleNames :=
                                                  Set_add roleName (visitedRoleNames w2),
                                                delegationsToVisit :=
                                                  push_children targetPath roleName targets
                                                    (delegationsToVisit w2) \<rparr>)))))
      else Inl (w, Inr None))"

text \<open>
  An iteration that does not leave the loop either adds a role to \<^verbatim>\<open>visitedRoleNames\<close>,
  which the condition of the loop bounds, or leaves the set as it is and shortens the
  stack.
\<close>

lemma walk_step_config:
  "walk_step env targetPath w = Inr w' \<Longrightarrow> config (w_updater w') = config (w_updater w)"
  by (auto simp: walk_step_def Let_def dest: loadTargets_config
           split: if_splits sum.splits option.splits prod.splits)

lemma walk_step_decreases:
  assumes "walk_step env targetPath w = Inr w'"
  shows "(length (visitedRoleNames w') = Suc (length (visitedRoleNames w)) \<and>
          int (length (visitedRoleNames w)) \<le> maxDelegations (config (w_updater w))) \<or>
         (visitedRoleNames w' = visitedRoleNames w \<and>
          length (delegationsToVisit w') < length (delegationsToVisit w))"
  using assms
  by (cases "delegationsToVisit w")
     (auto simp: walk_step_def Let_def Set_add_def push_children_def
           split: if_splits sum.splits option.splits prod.splits)

text \<open>The loop: iterations until one leaves it.\<close>

function walk_loop :: "Env \<Rightarrow> string \<Rightarrow> WalkState \<Rightarrow> WalkState \<times> (error + TargetFile option)" where
  "walk_loop env targetPath w =
     (case walk_step env targetPath w of
        Inl result \<Rightarrow> result
      | Inr w' \<Rightarrow> walk_loop env targetPath w')"
  by pat_completeness auto
termination
proof (relation "measures [\<lambda>(env, targetPath, w).
                             nat (maxDelegations (config (w_updater w)) + 1
                                  - int (length (visitedRoleNames w))),
                           \<lambda>(env, targetPath, w). length (delegationsToVisit w)]",
       goal_cases)
  case 1
  show ?case by simp
next
  case (2 env targetPath w w')
  from walk_step_decreases [OF 2] walk_step_config [OF 2] show ?case
    by auto
qed

declare walk_loop.simps [simp del]

text \<open>The state in which \<^verbatim>\<open>preorderDepthFirstWalk\<close> enters its loop.\<close>

definition walk_start :: "Updater \<Rightarrow> WalkState" where
  "walk_start u =
     \<lparr> w_updater = u, delegationsToVisit = [(''targets'', ''root'')], visitedRoleNames = [],
       consulted = [] \<rparr>"

text \<open>\<^verbatim>\<open>preorderDepthFirstWalk(targetPath)\<close>\<close>

definition preorderDepthFirstWalk ::
  "Env \<Rightarrow> Updater \<Rightarrow> string \<Rightarrow> WalkState \<times> (error + TargetFile option)"
where
  "preorderDepthFirstWalk env u targetPath = walk_loop env targetPath (walk_start u)"

subsection \<open>\<^verbatim>\<open>getTargetInfo\<close>\<close>

text \<open>
  \<^verbatim>\<open>if (!this.trustedSet.targets) { this.refresh(); }\<close> calls the asynchronous \<^verbatim>\<open>refresh\<close> and
  drops the promise: there is no \<^verbatim>\<open>await\<close>. The body of an asynchronous function runs, at
  the call, up to its first \<^verbatim>\<open>await\<close> and no further. The first statement of \<^verbatim>\<open>refresh\<close> is
  \<^verbatim>\<open>await this.loadRoot()\<close>; \<^verbatim>\<open>loadRoot\<close> in its turn runs up to
  \<^verbatim>\<open>await this.fetcher.downloadBytes(...)\<close> for the first version of its loop, and
  \<^verbatim>\<open>downloadBytes\<close> up to \<^verbatim>\<open>await this.fetch(url)\<close>. So when the call comes back the first
  root version has been requested, if the loop is entered at all, and nothing else has
  happened: no update of the trusted set and no write. The next statement,
  \<^verbatim>\<open>return this.preorderDepthFirstWalk(targetPath)\<close>, starts the walk on that updater.
  (What the refresh in flight does later, while the walk itself waits for a download, is
  outside this sequential model.)
\<close>

definition refresh_until_first_await :: "Updater \<Rightarrow> Updater" where
  "refresh_until_first_await u =
     (let rootVersion = root_version (trustedSet u);
          lowerBound = rootVersion + 1;
          upperBound = lowerBound + maxRootRotations (config u)
      in if lowerBound \<le> upperBound
         then u\<lparr> requests := requests u @
                  [path_join (metadataBaseUrl u) (string_of_int lowerBound @ ''.root.json'')] \<rparr>
         else u)"

definition getTargetInfo ::
  "Env \<Rightarrow> Updater \<Rightarrow> string \<Rightarrow> WalkState \<times> (error + TargetFile option)"
where
  "getTargetInfo env u targetPath =
     (if getRole (trustedSet u) ''targets'' = None
      then preorderDepthFirstWalk env (refresh_until_first_await u) targetPath
      else preorderDepthFirstWalk env u targetPath)"

text \<open>What the claim C6 describes: the refresh awaited, then the walk.\<close>

definition getTargetInfo_awaited ::
  "Env \<Rightarrow> Updater \<Rightarrow> string \<Rightarrow> error + WalkState \<times> (error + TargetFile option)"
where
  "getTargetInfo_awaited env u targetPath =
     (if getRole (trustedSet u) ''targets'' = None
      then (case refresh env u of
              Inl e \<Rightarrow> Inl e
            | Inr u' \<Rightarrow> Inr (preorderDepthFirstWalk env u' targetPath))
      else Inr (preorderDepthFirstWalk env u targetPath))"

subsection \<open>An environment for the examples\<close>

text \<open>
  Modelled from the spec: the update operations of the trusted set (store.ts is not among
  the sources), after section 4.2 of the specification, for use in the examples only.
  Parsing, with the verification of the signatures and of the expiry, is the parameter
  \<open>parse\<close>: \<open>None\<close> for bytes that are rejected.
\<close>

datatype Document =
    RootDoc int bool
  | TimestampDoc TimestampSigned
  | SnapshotDoc SnapshotSigned
  | TargetsDoc TargetsSigned

definition store_updateRoot ::
  "(Buffer \<Rightarrow> Document option) \<Rightarrow> TrustedMetadataStore \<Rightarrow> Buffer \<Rightarrow> error + TrustedMetadataStore"
where
  "store_updateRoot parse ts bytes =
     (if ts_snapshot ts \<noteq> None then Inl (RuntimeError ''Cannot update root after snapshot'')
      else case parse bytes of
             Some (RootDoc v c) \<Rightarrow>
               if v = root_version ts + 1
               then Inr (ts\<lparr> root_version := v, root_consistentSnapshot := c \<rparr>)
               else Inl (BadVersionError ''Expected the next root version'')
           | _ \<Rightarrow> Inl (RepositoryError ''Not a trusted root''))"

definition store_updateTimestamp ::
  "(Buffer \<Rightarrow> Document option) \<Rightarrow> TrustedMetadataStore \<Rightarrow> Buffer \<Rightarrow> error + TrustedMetadataStore"
where
  "store_updateTimestamp parse ts bytes =
     (case parse bytes of
        Some (TimestampDoc new) \<Rightarrow>
          (case ts_timestamp ts of
             None \<Rightarrow> Inr (ts\<lparr> ts_timestamp := Some new \<rparr>)
           | Some cur \<Rightarrow>
               if tm_version new = tm_version cur
               then Inl (EqualVersionError ''New timestamp version equals the current one'')
               else if tm_version new < tm_version cur
               then Inl (BadVersionError ''New timestamp version is older'')
               else if mf_version (tm_snapshotMeta new) < mf_version (tm_snapshotMeta cur)
               then Inl (BadVersionError ''New snapshot version is older'')
               else Inr (ts\<lparr> ts_timestamp := Some new \<rparr>))
      | _ \<Rightarrow> Inl (RepositoryError ''Not a trusted timestamp''))"

definition store_updateSnapshot ::
  "(Buffer \<Rightarrow> Document option) \<Rightarrow> TrustedMetadataStore \<Rightarrow> Buffer \<Rightarrow> bool
     \<Rightarrow> error + TrustedMetadataStore"
where
  "store_updateSnapshot parse ts bytes trusted =
     (case ts_timestamp ts of
        None \<Rightarrow> Inl (RuntimeError ''Cannot update snapshot before timestamp'')
      | Some tm \<Rightarrow>
          (case parse bytes of
             Some (SnapshotDoc new) \<Rightarrow>
               if sn_version new \<noteq> mf_version (tm_snapshotMeta tm)
               then Inl (BadVersionError ''Snapshot version does not match the timestamp'')
               else if (case ts_snapshot ts of
                          None \<Rightarrow> False
                        | Some cur \<Rightarrow>
                            \<not> list_all (\<lambda>(name, mf).
                                  case map_of (sn_meta new) name of
                                    None \<Rightarrow> False
                                  | Some mf' \<Rightarrow> mf_version mf \<le> mf_version mf') (sn_meta cur))
               then Inl (BadVersionError ''Snapshot meta is older'')
               else Inr (ts\<lparr> ts_snapshot := Some new, ts_roles := [] \<rparr>)
           | _ \<Rightarrow> Inl (RepositoryError ''Not a trusted snapshot'')))"

definition store_updateDelegatedTargets ::
  "(Buffer \<Rightarrow> Document option) \<Rightarrow> TrustedMetadataStore \<Rightarrow> Buffer \<Rightarrow> string \<Rightarrow> string
     \<Rightarrow> error + TrustedMetadataStore"
where
  "store_updateDelegatedTargets parse ts bytes roleName parentName =
     (case ts_snapshot ts of
        None \<Rightarrow> Inl (RuntimeError ''Cannot load targets before snapshot'')
      | Some sn \<Rightarrow>
          if roleName \<noteq> ''targets'' \<and> getRole ts parentName = None
          then Inl (RuntimeError ''Cannot load targets before the delegator'')
          else (case map_of (sn_meta sn) (roleName @ ''.json'') of
                  None \<Rightarrow> Inl (RepositoryError ''Snapshot does not contain the role'')
                | Some metaInfo \<Rightarrow>
                    (case parse bytes of
                       Some (TargetsDoc new) \<Rightarrow>
                         if tg_version new \<noteq> mf_version metaInfo
                         then Inl (BadVersionError ''Targets version does not match the snapshot'')
                         else Inr (ts\<lparr> ts_roles := AList.update roleName new (ts_roles ts) \<rparr>)
                     | _ \<Rightarrow> Inl (RepositoryError ''Not trusted targets''))))"

text \<open>
  The environment of a remote that serves the given files whole, of a parser given by
  its table, and of a file system where every write succeeds.
\<close>

definition example_env :: "(string \<times> Buffer) list \<Rightarrow> (Buffer \<times> Document) list \<Rightarrow> Env" where
  "example_env remote table =
     \<lparr> fetch = (\<lambda>url. case map_of remote url of
                         None \<Rightarrow> Inl (Error ''404'')
                       | Some b \<Rightarrow> Inr [Inr b]),
       writeFileSync = (\<lambda>fs path' b. Inr (AList.update path' b fs)),
       updateRoot = store_updateRoot (map_of table),
       updateTimestamp = store_updateTimestamp (map_of table),
       updateSnapshot = store_updateSnapshot (map_of table),
       updateDelegatedTargets = store_updateDelegatedTargets (map_of table) \<rparr>"

definition example_config :: "int \<Rightarrow> int \<Rightarrow> Config" where
  "example_config rotations delegations =
     \<lparr> maxRootRotations = rotations, maxDelegations = delegations, rootMaxLength = 512000,
       timestampMaxLength = 16384, snapshotMaxLength = 2000000, targetsMaxLength = 5000000 \<rparr>"

text \<open>An updater that trusts a root of version 1 and nothing else, with no file cached.\<close>

definition fresh_updater :: "Config \<Rightarrow> Updater" where
  "fresh_updater c =
     \<lparr> dir = ''meta'', metadataBaseUrl = ''http://repo'',
       trustedSet = \<lparr> root_version = 1, root_consistentSnapshot = False, ts_timestamp = None,
                      ts_snapshot = None, ts_roles = [] \<rparr>,
       config = c, files = [], requests = [] \<rparr>"

text \<open>An updater whose trusted set holds the given targets roles already.\<close>

definition cached_updater :: "Config \<Rightarrow> (string \<times> TargetsSigned) list \<Rightarrow> Updater" where
  "cached_updater c rs =
     \<lparr> dir = ''meta'', metadataBaseUrl = ''http://repo'',
       trustedSet = \<lparr> root_version = 1, root_consistentSnapshot = False, ts_timestamp = None,
                      ts_snapshot = Some \<lparr> sn_version = 1, sn_meta = [] \<rparr>, ts_roles = rs \<rparr>,
       config = c, files = [], requests = [] \<rparr>"

text \<open>Targets metadata without targets that delegates every path to the given roles.\<close>

definition delegating :: "(string \<times> bool) list \<Rightarrow> TargetsSigned" where
  "delegating children =
     \<lparr> tg_version = 1, tg_targets = Some [], tg_delegations = Some (\<lambda>targetPath. children) \<rparr>"

definition file1 :: TargetFile where
  "file1 = \<lparr> tf_path = ''file1.txt'', tf_length = 31, tf_hashes = [(''sha256'', ''65b8c67f'')] \<rparr>"

definition example_remote :: "(string \<times> Buffer) list" where
  "example_remote =
     [(''http:/repo/2.root.json'', ''root2''), (''http:/repo/3.root.json'', ''root3''),
      (''http:/repo/timestamp.json'', ''timestamp1''),
      (''http:/repo/snapshot.json'', ''snapshot1''),
      (''http:/repo/targets.json'', ''targets1'')]"

definition example_table :: "(Buffer \<times> Document) list" where
  "example_table =
     [(''root2'', RootDoc 2 False), (''root3'', RootDoc 3 False),
      (''timestamp1'', TimestampDoc \<lparr> tm_version = 1,
          tm_snapshotMeta = \<lparr> mf_version = 1, mf_length = None \<rparr> \<rparr>),
      (''snapshot1'', SnapshotDoc \<lparr> sn_version = 1,
          sn_meta = [(''targets.json'', \<lparr> mf_version = 1, mf_length = None \<rparr>)] \<rparr>),
      (''targets1'', TargetsDoc \<lparr> tg_version = 1, tg_targets = Some [(''file1.txt'', file1)],
          tg_delegations = None \<rparr>)]"

text \<open>
  An updater that trusts a root of version 3 and a timestamp of the given version, which
  names the snapshot of version 1.
\<close>

definition timestamp_updater :: "Config \<Rightarrow> int \<Rightarrow> Updater" where
  "timestamp_updater c v =
     \<lparr> dir = ''meta'', metadataBaseUrl = ''http://repo'',
       trustedSet = \<lparr> root_version = 3, root_consistentSnapshot = False,
                      ts_timestamp = Some \<lparr> tm_version = v,
                         tm_snapshotMeta = \<lparr> mf_version = 1, mf_length = None \<rparr> \<rparr>,
                      ts_snapshot = None, ts_roles = [] \<rparr>,
       config = c, files = [], requests = [] \<rparr>"

text \<open>
  An updater with the given \<^verbatim>\<open>maxDelegations\<close> whose trusted \<^verbatim>\<open>targets\<close> delegates to A,
  and A to B; none lists a target.
\<close>

definition chain_updater :: "int \<Rightarrow> Updater" where
  "chain_updater budget =
     cached_updater (example_config 5 budget)
       [(''targets'', delegating [(''A'', False)]), (''A'', delegating [(''B'', False)]),
        (''B'', delegating [])]"

text \<open>The environment of a remote that serves nothing.\<close>

definition offline_env :: Env where
  "offline_env = example_env [] []"

text \<open>
  The delegation of scenario 5 of the specification: \<^verbatim>\<open>targets\<close> delegates the path to A,
  to the terminating B and to C, in this order; and the same where B in its turn
  delegates the path to C.
\<close>

definition terminating_sibling_updater :: Updater where
  "terminating_sibling_updater =
     cached_updater (example_config 5 32)
       [(''targets'', delegating [(''A'', False), (''B'', True), (''C'', False)]),
        (''A'', delegating []), (''B'', delegating [(''C'', False)]), (''C'', delegating [])]"

definition terminating_updater :: Updater where
  "terminating_updater =
     cached_updater (example_config 5 32)
       [(''targets'', delegating [(''A'', False), (''B'', True), (''C'', False)]),
        (''A'', delegating []), (''B'', delegating []), (''C'', delegating [])]"

subsection \<open>Notions for the properties of the walk\<close>

text \<open>The contract of the trusted set: a targets update that succeeds commits the role.\<close>

definition commits_role :: "Env \<Rightarrow> bool" where
  "commits_role env \<longleftrightarrow>
     (\<forall>ts bytes role parentRole ts'.
        updateDelegatedTargets env ts bytes role parentRole = Inr ts' \<longrightarrow> getRole ts' role \<noteq> None)"

text \<open>
  What holds of the state of the walk at every test of the loop condition, given that
  contract: the roles consulted so far are the visited ones, each once, with the
  top-level \<^verbatim>\<open>targets\<close> role first; and the visited set is within the budget plus one.
\<close>

definition walk_inv :: "int \<Rightarrow> WalkState \<Rightarrow> bool" where
  "walk_inv budget w \<longleftrightarrow>
     maxDelegations (config (w_updater w)) = budget \<and>
     distinct (visitedRoleNames w) \<and>
     map fst (consulted w) = visitedRoleNames w \<and>
     int (length (visitedRoleNames w)) \<le> max 0 (budget + 1) \<and>
     (if consulted w = [] then set (delegationsToVisit w) \<subseteq> {(''targets'', ''root'')}
      else hd (consulted w) = (''targets'', ''root''))"

text \<open>
  The matching roles up to and including the first terminating one (all of them where
  none is terminating).
\<close>

fun up_to_terminating :: "(string \<times> bool) list \<Rightarrow> (string \<times> bool) list" where
  "up_to_terminating [] = []"
| "up_to_terminating (c # cs) = (if snd c then [c] else c # up_to_terminating cs)"

text \<open>
  What a walk state allows to be consulted from it on: a delegation that has been
  consulted, one that is on the stack, or one made by a role that is not yet visited.
\<close>

definition consulted_from :: "WalkState \<Rightarrow> Delegation \<Rightarrow> bool" where
  "consulted_from w d \<longleftrightarrow>
     d \<in> set (consulted w) \<or> d \<in> set (delegationsToVisit w) \<or> snd d \<notin> set (visitedRoleNames w)"

text \<open>
  What holds of the stack at every test of the loop condition: it is the stack the walk
  starts with, or every delegation on it was made by a role that is visited.
\<close>

definition pending_inv :: "WalkState \<Rightarrow> bool" where
  "pending_inv w \<longleftrightarrow>
     delegationsToVisit w = [(''targets'', ''root'')] \<or>
     (\<forall>d\<in>set (delegationsToVisit w). snd d \<in> set (visitedRoleNames w))"

section \<open>Properties of the updater\<close>

subsection \<open>The root rotation loop\<close>

text \<open>The numerals in the URLs of the examples.\<close>

lemma string_of_int_examples:
  "string_of_int 1 = ''1''" "string_of_int 2 = ''2''" "string_of_int 3 = ''3''"
  "string_of_int 4 = ''4''"
  by (simp_all add: string_of_int_def string_of_nat.simps digit_char_def)

text \<open>The paths and the URLs of the examples.\<close>

lemma path_join_examples:
  "path_join ''meta'' ''root.json'' = ''meta/root.json''"
  "path_join ''meta'' ''timestamp.json'' = ''meta/timestamp.json''"
  "path_join ''meta'' ''snapshot.json'' = ''meta/snapshot.json''"
  "path_join ''meta'' ''targets.json'' = ''meta/targets.json''"
  "path_join ''http://repo'' ''2.root.json'' = ''http:/repo/2.root.json''"
  "path_join ''http://repo'' ''3.root.json'' = ''http:/repo/3.root.json''"
  "path_join ''http://repo'' ''4.root.json'' = ''http:/repo/4.root.json''"
  "path_join ''http://repo'' ''timestamp.json'' = ''http:/repo/timestamp.json''"
  "path_join ''http://repo'' ''snapshot.json'' = ''http:/repo/snapshot.json''"
  "path_join ''http://repo'' ''targets.json'' = ''http:/repo/targets.json''"
  by code_simp+

text \<open>
  One call of \<^verbatim>\<open>loadRoot\<close> requests at most \<^verbatim>\<open>maxRootRotations + 1\<close> root versions.
\<close>

lemma loadRoot_loop_requests:
  "length (requests (loadRoot_loop env upperBound v u))
     \<le> length (requests u) + nat (upperBound + 1 - v)"
proof (induction env upperBound v u rule: loadRoot_loop.induct)
  case (1 env upperBound v u)
  show ?case
  proof (cases "v \<le> upperBound")
    case False
    then show ?thesis by (simp add: loadRoot_loop.simps [of env upperBound v u])
  next
    case True
    let ?url = "path_join (metadataBaseUrl u) (string_of_int v @ ''.root.json'')"
    let ?d = "fetcher_downloadBytes env u ?url (rootMaxLength (config u))"
    obtain u1 r where d: "?d = (u1, r)" by (cases ?d)
    then have u1: "requests u1 = requests u @ [?url]"
      by (auto simp: fetcher_downloadBytes_def)
    show ?thesis
    proof (cases r)
      case (Inl e)
      with True d u1 show ?thesis
        by (simp add: loadRoot_loop.simps [of env upperBound v u])
    next
      case (Inr bytesData)
      show ?thesis
      proof (cases "updateRoot env (trustedSet u1) bytesData")
        case (Inl e)
        with True d u1 Inr show ?thesis
          by (simp add: loadRoot_loop.simps [of env upperBound v u])
      next
        case (Inr ts')
        let ?u2 = "persistMetadata env (u1\<lparr>trustedSet := ts'\<rparr>) ''root'' bytesData"
        have "length (requests (loadRoot_loop env upperBound (v + 1) ?u2))
                \<le> length (requests ?u2) + nat (upperBound + 1 - (v + 1))"
          using "1.IH" [OF True refl refl d [symmetric] \<open>r = Inr bytesData\<close> Inr] .
        with True d u1 Inr \<open>r = Inr bytesData\<close> show ?thesis
          by (simp add: loadRoot_loop.simps [of env upperBound v u])
      qed
    qed
  qed
qed

lemma loadRoot_requests:
  "length (requests (loadRoot env u)) \<le> length (requests u) + nat (maxRootRotations (config u) + 1)"
  using loadRoot_loop_requests [of env "root_version (trustedSet u) + 1 + maxRootRotations (config u)"
      "root_version (trustedSet u) + 1" u]
  by (simp add: loadRoot_def Let_def)

text \<open>
  C2 fails on the code: the loop runs for \<^verbatim>\<open>version <= upperBound\<close> with
  \<^verbatim>\<open>upperBound = lowerBound + maxRootRotations\<close>, which is one version more than
  \<^verbatim>\<open>maxRootRotations\<close>. With \<^verbatim>\<open>maxRootRotations = 1\<close>, a trusted root of version 1 and a
  remote that offers the versions 2 and 3, both are fetched, committed and persisted, and
  the trusted root ends at version 3.
\<close>

theorem loadRoot_one_rotation_too_many:
  "maxRootRotations (config (fresh_updater (example_config 1 32))) = 1 \<and>
   root_version (trustedSet (fresh_updater (example_config 1 32))) = 1 \<and>
   root_version (trustedSet (loadRoot (example_env example_remote example_table)
      (fresh_updater (example_config 1 32)))) = 3 \<and>
   requests (loadRoot (example_env example_remote example_table)
      (fresh_updater (example_config 1 32)))
     = [''http:/repo/2.root.json'', ''http:/repo/3.root.json''] \<and>
   files (loadRoot (example_env example_remote example_table)
      (fresh_updater (example_config 1 32)))
     = [(''meta/root.json'', ''root3'')]"
  by (simp add: loadRoot_def loadRoot_loop.simps fetcher_downloadBytes_def downloadBytes_def
        persistMetadata_def path_join_examples Let_def example_env_def example_remote_def
        example_table_def example_config_def store_updateRoot_def string_of_int_examples
        fresh_updater_def)

subsection \<open>The timestamp step\<close>

lemma loadTimestamp_local_frame:
  "config (loadTimestamp_local env u) = config u"
  "files (loadTimestamp_local env u) = files u"
  "requests (loadTimestamp_local env u) = requests u"
  "metadataBaseUrl (loadTimestamp_local env u) = metadataBaseUrl u"
  "dir (loadTimestamp_local env u) = dir u"
  by (simp_all add: loadTimestamp_local_def split: sum.splits)

text \<open>
  C7: where the download of the remote timestamp succeeds and \<^verbatim>\<open>updateTimestamp\<close> throws an
  \<^verbatim>\<open>EqualVersionError\<close> on its bytes, \<^verbatim>\<open>loadTimestamp\<close> returns without an error, has changed
  no file and has left the trusted set as the local step left it, and \<^verbatim>\<open>refresh\<close> goes on
  with the snapshot step; where \<^verbatim>\<open>updateTimestamp\<close> throws any other error, \<^verbatim>\<open>loadTimestamp\<close>
  and \<^verbatim>\<open>refresh\<close> fail with that error.
\<close>

theorem refresh_timestamp_errors:
  assumes "u = loadRoot env u0" and "u1 = loadTimestamp_local env u"
    and "downloadBytes (fetch env) (path_join (metadataBaseUrl u) ''timestamp.json'')
           (timestampMaxLength (config u)) = Inr bytesData"
  shows "(updateTimestamp env (trustedSet u1) bytesData = Inl (EqualVersionError m) \<longrightarrow>
            (\<exists>u2. loadTimestamp env u = Inr u2 \<and> files u2 = files u \<and>
                  trustedSet u2 = trustedSet u1 \<and>
                  refresh env u0 = refresh_snapshot_targets env u2)) \<and>
         (updateTimestamp env (trustedSet u1) bytesData = Inl e \<and> (\<forall>m. e \<noteq> EqualVersionError m) \<longrightarrow>
            loadTimestamp env u = Inl e \<and> refresh env u0 = Inl e)"
proof -
  have a: "\<exists>u2. loadTimestamp env u = Inr u2 \<and> files u2 = files u \<and>
      trustedSet u2 = trustedSet u1 \<and> refresh env u0 = refresh_snapshot_targets env u2"
    if eq: "updateTimestamp env (trustedSet u1) bytesData = Inl (EqualVersionError m)"
  proof -
    let ?u2 = "u1\<lparr> requests := requests u1 @ [path_join (metadataBaseUrl u) ''timestamp.json''] \<rparr>"
    have l: "loadTimestamp env u = Inr ?u2"
      using assms eq
      by (simp add: loadTimestamp_def Let_def fetcher_downloadBytes_def loadTimestamp_local_frame)
    moreover have "files ?u2 = files u" "trustedSet ?u2 = trustedSet u1"
      using assms(2) by (simp_all add: loadTimestamp_local_frame)
    moreover have "refresh env u0 = refresh_snapshot_targets env ?u2"
      using l assms(1) by (simp add: refresh_def)
    ultimately show ?thesis by blast
  qed
  have b: "loadTimestamp env u = Inl e \<and> refresh env u0 = Inl e"
    if ne: "updateTimestamp env (trustedSet u1) bytesData = Inl e \<and> (\<forall>m. e \<noteq> EqualVersionError m)"
  proof -
    from ne assms have l: "loadTimestamp env u = Inl e"
      by (cases e)
         (simp_all add: loadTimestamp_def Let_def fetcher_downloadBytes_def loadTimestamp_local_frame)
    then show ?thesis
      using assms(1) by (simp add: refresh_def)
  qed
  from a b show ?thesis by blast
qed

theorem refresh_timestamp_errors_witness:
  "updateTimestamp (example_env example_remote example_table)
     (trustedSet (loadTimestamp_local (example_env example_remote example_table)
        (loadRoot (example_env example_remote example_table)
           (timestamp_updater (example_config 1 32) 1)))) ''timestamp1''
     = Inl (EqualVersionError ''New timestamp version equals the current one'') \<and>
   (\<exists>u2. loadTimestamp (example_env example_remote example_table)
            (loadRoot (example_env example_remote example_table)
               (timestamp_updater (example_config 1 32) 1)) = Inr u2 \<and>
         files u2 = [] \<and>
         refresh (example_env example_remote example_table)
            (timestamp_updater (example_config 1 32) 1)
           = refresh_snapshot_targets (example_env example_remote example_table) u2) \<and>
   refresh (example_env example_remote example_table) (timestamp_updater (example_config 1 32) 5)
     = Inl (BadVersionError ''New timestamp version is older'')"
proof -
  let ?env = "example_env example_remote example_table"
  let ?a = "timestamp_updater (example_config 1 32) 1"
  let ?b = "timestamp_updater (example_config 1 32) 5"
  have da: "downloadBytes (fetch ?env) (path_join (metadataBaseUrl (loadRoot ?env ?a)) ''timestamp.json'')
              (timestampMaxLength (config (loadRoot ?env ?a))) = Inr ''timestamp1''"
    by (simp add: loadRoot_def loadRoot_loop.simps fetcher_downloadBytes_def downloadBytes_def
        persistMetadata_def path_join_examples Let_def example_env_def example_remote_def
        example_table_def example_config_def store_updateRoot_def string_of_int_examples
        loadTimestamp_local_def loadLocalMetadata_def store_updateTimestamp_def
        timestamp_updater_def)
  have db: "downloadBytes (fetch ?env) (path_join (metadataBaseUrl (loadRoot ?env ?b)) ''timestamp.json'')
              (timestampMaxLength (config (loadRoot ?env ?b))) = Inr ''timestamp1''"
    by (simp add: loadRoot_def loadRoot_loop.simps fetcher_downloadBytes_def downloadBytes_def
        persistMetadata_def path_join_examples Let_def example_env_def example_remote_def
        example_table_def example_config_def store_updateRoot_def string_of_int_examples
        loadTimestamp_local_def loadLocalMetadata_def store_updateTimestamp_def
        timestamp_updater_def)
  have ea: "updateTimestamp ?env (trustedSet (loadTimestamp_local ?env (loadRoot ?env ?a))) ''timestamp1''
              = Inl (EqualVersionError ''New timestamp version equals the current one'')"
    by (simp add: loadRoot_def loadRoot_loop.simps fetcher_downloadBytes_def downloadBytes_def
        persistMetadata_def path_join_examples Let_def example_env_def example_remote_def
        example_table_def example_config_def store_updateRoot_def string_of_int_examples
        loadTimestamp_local_def loadLocalMetadata_def store_updateTimestamp_def
        timestamp_updater_def)
  have eb: "updateTimestamp ?env (trustedSet (loadTimestamp_local ?env (loadRoot ?env ?b))) ''timestamp1''
              = Inl (BadVersionError ''New timestamp version is older'')"
    by (simp add: loadRoot_def loadRoot_loop.simps fetcher_downloadBytes_def downloadBytes_def
        persistMetadata_def path_join_examples Let_def example_env_def example_remote_def
        example_table_def example_config_def store_updateRoot_def string_of_int_examples
        loadTimestamp_local_def loadLocalMetadata_def store_updateTimestamp_def
        timestamp_updater_def)
  have fa: "files (loadRoot ?env ?a) = []"
    by (simp add: loadRoot_def loadRoot_loop.simps fetcher_downloadBytes_def downloadBytes_def
        persistMetadata_def path_join_examples Let_def example_env_def example_remote_def
        example_table_def example_config_def store_updateRoot_def string_of_int_examples
        loadTimestamp_local_def loadLocalMetadata_def store_updateTimestamp_def
        timestamp_updater_def)
  from refresh_timestamp_errors [OF refl refl da,
      of "''New timestamp version equals the current one''" "Error []"] ea fa
  have a: "\<exists>u2. loadTimestamp ?env (loadRoot ?env ?a) = Inr u2 \<and> files u2 = [] \<and>
             refresh ?env ?a = refresh_snapshot_targets ?env u2"
    by auto
  from refresh_timestamp_errors [OF refl refl db,
      of "[]" "BadVersionError ''New timestamp version is older''"] eb
  have b: "refresh ?env ?b = Inl (BadVersionError ''New timestamp version is older'')"
    by simp
  from ea a b show ?thesis by blast
qed

subsection \<open>The walk: its iterations and its budget\<close>

lemma walk_step_Inr_cases:
  assumes "walk_step env targetPath w = Inr w'"
  obtains
    (skip) r pr rest where
      "delegationsToVisit w = (r, pr) # rest"
      "int (length (visitedRoleNames w)) \<le> maxDelegations (config (w_updater w))"
      "r \<in> set (visitedRoleNames w)"
      "w' = w\<lparr> delegationsToVisit := rest \<rparr>"
  | (undefined) r pr rest u' where
      "delegationsToVisit w = (r, pr) # rest"
      "int (length (visitedRoleNames w)) \<le> maxDelegations (config (w_updater w))"
      "r \<notin> set (visitedRoleNames w)"
      "loadTargets env (w_updater w) r pr = Inr (u', None)"
      "w' = w\<lparr> w_updater := u', delegationsToVisit := rest,
               consulted := consulted w @ [(r, pr)] \<rparr>"
  | (visit) r pr rest u' targets where
      "delegationsToVisit w = (r, pr) # rest"
      "int (length (visitedRoleNames w)) \<le> maxDelegations (config (w_updater w))"
      "r \<notin> set (visitedRoleNames w)"
      "loadTargets env (w_updater w) r pr = Inr (u', Some targets)"
      "lookup_target targets targetPath = None"
      "w' = w\<lparr> w_updater := u',
               delegationsToVisit := push_children targetPath r targets rest,
               visitedRoleNames := visitedRoleNames w @ [r],
               consulted := consulted w @ [(r, pr)] \<rparr>"
proof (cases "delegationsToVisit w")
  case Nil
  with assms show ?thesis by (simp add: walk_step_def)
next
  case (Cons d rest)
  obtain r pr where d: "d = (r, pr)" by (cases d)
  from assms have c: "int (length (visitedRoleNames w)) \<le> maxDelegations (config (w_updater w))"
    by (simp add: walk_step_def split: if_splits)
  show ?thesis
  proof (cases "r \<in> set (visitedRoleNames w)")
    case True
    with assms Cons d c have "w' = w\<lparr> delegationsToVisit := rest \<rparr>"
      by (simp add: walk_step_def Let_def)
    with Cons d c True show ?thesis by (rule_tac skip) auto
  next
    case False
    show ?thesis
    proof (cases "loadTargets env (w_updater w) r pr")
      case (Inl e)
      with assms Cons d c False show ?thesis by (simp add: walk_step_def Let_def)
    next
      case (Inr res)
      obtain u' md where res: "res = (u', md)" by (cases res)
      show ?thesis
      proof (cases md)
        case None
        with assms Cons d c False Inr res
        have "w' = w\<lparr> w_updater := u', delegationsToVisit := rest,
                        consulted := consulted w @ [(r, pr)] \<rparr>"
          by (auto simp: walk_step_def Let_def)
        with Cons d c False Inr res None show ?thesis by (rule_tac undefined) auto
      next
        case (Some targets)
        show ?thesis
        proof (cases "lookup_target targets targetPath")
          case (Some t)
          with assms Cons d c False Inr res \<open>md = Some targets\<close> show ?thesis
            by (simp add: walk_step_def Let_def)
        next
          case None
          with assms Cons d c False Inr res Some
          have "w' = w\<lparr> w_updater := u',
               delegationsToVisit := push_children targetPath r targets rest,
               visitedRoleNames := visitedRoleNames w @ [r],
               consulted := consulted w @ [(r, pr)] \<rparr>"
            by (auto simp: walk_step_def Let_def Set_add_def)
          with Cons d c False Inr res Some None show ?thesis by (rule_tac visit) auto
        qed
      qed
    qed
  qed
qed

lemma walk_step_Inl_cases:
  assumes "walk_step env targetPath w = Inl (w', res)"
  obtains
    (finished)
      "\<not> (int (length (visitedRoleNames w)) \<le> maxDelegations (config (w_updater w)) \<and>
          delegationsToVisit w \<noteq> [])"
      "w' = w" "res = Inr None"
  | (error) r pr rest e where
      "delegationsToVisit w = (r, pr) # rest"
      "int (length (visitedRoleNames w)) \<le> maxDelegations (config (w_updater w))"
      "r \<notin> set (visitedRoleNames w)"
      "loadTargets env (w_updater w) r pr = Inl e"
      "w' = w\<lparr> delegationsToVisit := rest, consulted := consulted w @ [(r, pr)] \<rparr>"
      "res = Inl e"
  | (found) r pr rest u' targets target where
      "delegationsToVisit w = (r, pr) # rest"
      "int (length (visitedRoleNames w)) \<le> maxDelegations (config (w_updater w))"
      "r \<notin> set (visitedRoleNames w)"
      "loadTargets env (w_updater w) r pr = Inr (u', Some targets)"
      "lookup_target targets targetPath = Some target"
      "w' = w\<lparr> w_updater := u', delegationsToVisit := rest,
               consulted := consulted w @ [(r, pr)] \<rparr>"
      "res = Inr (Some target)"
proof (cases "int (length (visitedRoleNames w)) \<le> maxDelegations (config (w_updater w)) \<and>
          delegationsToVisit w \<noteq> []")
  case False
  with assms have "w' = w" "res = Inr None" by (auto simp: walk_step_def)
  with False show ?thesis by (rule_tac finished) auto
next
  case True
  then obtain d rest where Cons: "delegationsToVisit w = d # rest"
    by (cases "delegationsToVisit w") auto
  obtain r pr where d: "d = (r, pr)" by (cases d)
  from True have c: "int (length (visitedRoleNames w)) \<le> maxDelegations (config (w_updater w))"
    by simp
  show ?thesis
  proof (cases "r \<in> set (visitedRoleNames w)")
    case True
    with assms Cons d c show ?thesis by (simp add: walk_step_def Let_def)
  next
    case False
    show ?thesis
    proof (cases "loadTargets env (w_updater w) r pr")
      case (Inl e)
      with assms Cons d c False
      have "w' = w\<lparr> delegationsToVisit := rest, consulted := consulted w @ [(r, pr)] \<rparr>"
        "res = Inl e"
        by (auto simp: walk_step_def Let_def)
      with Cons d c False Inl show ?thesis by (rule_tac error) auto
    next
      case (Inr lr)
      obtain u' md where lr: "lr = (u', md)" by (cases lr)
      show ?thesis
      proof (cases md)
        case None
        with assms Cons d c False Inr lr show ?thesis by (simp add: walk_step_def Let_def)
      next
        case (Some targets)
        show ?thesis
        proof (cases "lookup_target targets targetPath")
          case None
          with assms Cons d c False Inr lr Some show ?thesis
            by (simp add: walk_step_def Let_def)
        next
          case (Some target)
          with assms Cons d c False Inr lr \<open>md = Some targets\<close>
          have "w' = w\<lparr> w_updater := u', delegationsToVisit := rest,
                          consulted := consulted w @ [(r, pr)] \<rparr>"
            "res = Inr (Some target)"
            by (auto simp: walk_step_def Let_def)
          with Cons d c False Inr lr \<open>md = Some targets\<close> Some show ?thesis
            by (rule_tac found) auto
        qed
      qed
    qed
  qed
qed

lemma walk_loop_rule:
  assumes "I w"
    and step: "\<And>w w'. I w \<Longrightarrow> walk_step env targetPath w = Inr w' \<Longrightarrow> I w'"
    and fin: "\<And>w w' r. I w \<Longrightarrow> walk_step env targetPath w = Inl (w', r) \<Longrightarrow> Q w' r"
  shows "Q (fst (walk_loop env targetPath w)) (snd (walk_loop env targetPath w))"
  using assms
proof (induction env targetPath w rule: walk_loop.induct)
  case (1 env targetPath w)
  show ?case
  proof (cases "walk_step env targetPath w")
    case (Inl res)
    obtain w' r where res: "res = (w', r)" by (cases res)
    from "1.prems"(3) [OF "1.prems"(1)] Inl res have "Q w' r" by simp
    with Inl res show ?thesis
      by (simp add: walk_loop.simps [of env targetPath w])
  next
    case (Inr w')
    from "1.prems"(2) [OF "1.prems"(1) Inr] have "I w'" .
    from "1.IH" [OF Inr this "1.prems"(2) "1.prems"(3)] Inr show ?thesis
      by (simp add: walk_loop.simps [of env targetPath w])
  qed
qed

lemma loadTargets_Some:
  assumes "commits_role env" and "loadTargets env u role parentRole = Inr (u', md)"
  shows "md \<noteq> None"
proof (cases "getRole (trustedSet u) role")
  case (Some t)
  with assms(2) have "Some t = md" by (simp add: loadTargets_def)
  then show ?thesis by auto
next
  case None
  from assms(1) have c: "updateDelegatedTargets env ts bytes r p = Inr ts' \<Longrightarrow> getRole ts' r \<noteq> None"
    for ts bytes r p ts'
    unfolding commits_role_def by blast
  from assms(2) None show ?thesis
    by (auto simp: loadTargets_def Let_def fetcher_downloadBytes_def dest: c
             split: option.splits sum.splits prod.splits)
qed

lemma walk_inv_step:
  assumes "commits_role env" and "walk_inv budget w" and "walk_step env targetPath w = Inr w'"
  shows "walk_inv budget w'"
  using assms(3)
proof (cases rule: walk_step_Inr_cases)
  case (skip r pr rest)
  with assms(2) show ?thesis by (auto simp: walk_inv_def split: if_splits)
next
  case (undefined r pr rest u')
  with loadTargets_Some [OF assms(1) undefined(4)] show ?thesis by simp
next
  case (visit r pr rest u' targets)
  from loadTargets_config [OF visit(4)] have "config u' = config (w_updater w)" .
  with assms(2) visit(1,2,3,6) show ?thesis
    by (auto simp: walk_inv_def split: if_splits)
qed

lemma walk_inv_fin:
  assumes "walk_inv budget w" and "walk_step env targetPath w = Inl (w', r)"
  shows "distinct (map fst (consulted w')) \<and>
         int (length (consulted w')) \<le> max 0 (budget + 1) \<and>
         int (length (visitedRoleNames w')) \<le> max 0 (budget + 1) \<and>
         (consulted w' = [] \<or> hd (consulted w') = (''targets'', ''root''))"
proof -
  have l: "length (consulted w) = length (visitedRoleNames w)"
    using assms(1) by (metis walk_inv_def length_map)
  from assms(2) show ?thesis
  proof (cases rule: walk_step_Inl_cases)
    case finished
    with assms(1) l show ?thesis by (simp add: walk_inv_def split: if_splits)
  next
    case (error r pr rest e)
    with assms(1) l show ?thesis by (auto simp: walk_inv_def split: if_splits)
  next
    case (found r pr rest u' targets target)
    with assms(1) l show ?thesis by (auto simp: walk_inv_def split: if_splits)
  qed
qed

lemma commits_role_example_env: "commits_role (example_env remote table)"
  by (auto simp: commits_role_def example_env_def store_updateDelegatedTargets_def getRole_def
        update_conv' split: option.splits if_splits Document.splits)

text \<open>
  A cycle: \<^verbatim>\<open>targets\<close> delegates to A, and A to \<^verbatim>\<open>targets\<close> and to itself. The walk visits both
  once and ends without a target.
\<close>

lemma walk_on_cycle:
  "preorderDepthFirstWalk offline_env
     (cached_updater (example_config 5 32)
        [(''targets'', delegating [(''A'', False)]),
         (''A'', delegating [(''targets'', False), (''A'', False)])]) ''file1.txt''
   = (\<lparr> w_updater = cached_updater (example_config 5 32)
        [(''targets'', delegating [(''A'', False)]),
         (''A'', delegating [(''targets'', False), (''A'', False)])],
        delegationsToVisit = [], visitedRoleNames = [''targets'', ''A''],
        consulted = [(''targets'', ''root''), (''A'', ''targets'')] \<rparr>, Inr None)"
  by (simp add: preorderDepthFirstWalk_def walk_start_def walk_loop.simps walk_step_def
        push_children_def lookup_target_def Set_add_def loadTargets_def getRole_def Let_def
        cached_updater_def delegating_def example_config_def)

text \<open>
  C3, as stated, fails on the bound: the loop goes on while \<^verbatim>\<open>visitedRoleNames.size\<close> is at
  most \<^verbatim>\<open>maxDelegations\<close>, and the set counts the top-level \<^verbatim>\<open>targets\<close> role too. With
  \<^verbatim>\<open>maxDelegations = 1\<close> and \<^verbatim>\<open>targets\<close> delegating to A, which delegates to B, the walk
  loads \<^verbatim>\<open>targets\<close> and A, two roles, before it gives up.
\<close>

theorem walk_over_budget:
  "maxDelegations (config (chain_updater 1)) = 1 \<and>
   consulted (fst (preorderDepthFirstWalk offline_env (chain_updater 1) ''file1.txt''))
     = [(''targets'', ''root''), (''A'', ''targets'')] \<and>
   visitedRoleNames (fst (preorderDepthFirstWalk offline_env (chain_updater 1) ''file1.txt''))
     = [''targets'', ''A''] \<and>
   snd (preorderDepthFirstWalk offline_env (chain_updater 1) ''file1.txt'') = Inr None"
  by (simp add: preorderDepthFirstWalk_def walk_start_def walk_loop.simps walk_step_def
        push_children_def lookup_target_def Set_add_def loadTargets_def getRole_def Let_def
        cached_updater_def delegating_def example_config_def chain_updater_def)

text \<open>
  C3, amended. The loop of the walk ends on every delegation graph: that is the
  termination proof of \<open>walk_loop\<close>, whose measure is the room left in
  \<^verbatim>\<open>visitedRoleNames\<close> and then the height of the stack. Where a targets update that succeeds
  commits the role, the roles that the walk loads are pairwise different and at most
  \<^verbatim>\<open>maxDelegations + 1\<close> in number: the first is the top-level \<^verbatim>\<open>targets\<close> role, and at
  most \<^verbatim>\<open>maxDelegations\<close> delegated roles follow.
\<close>

theorem walk_budget:
  assumes "commits_role env" and "w' = fst (preorderDepthFirstWalk env u targetPath)"
  shows "distinct (map fst (consulted w')) \<and>
         int (length (consulted w')) \<le> max 0 (maxDelegations (config u) + 1) \<and>
         int (length (visitedRoleNames w')) \<le> max 0 (maxDelegations (config u) + 1) \<and>
         (consulted w' = [] \<or> hd (consulted w') = (''targets'', ''root'')) \<and>
         int (length (tl (consulted w'))) \<le> max 0 (maxDelegations (config u))"
proof -
  let ?w0 = "walk_start u"
  let ?b = "maxDelegations (config u)"
  let ?Q = "\<lambda>w' (r :: error + TargetFile option). distinct (map fst (consulted w')) \<and>
                 int (length (consulted w')) \<le> max 0 (?b + 1) \<and>
                 int (length (visitedRoleNames w')) \<le> max 0 (?b + 1) \<and>
                 (consulted w' = [] \<or> hd (consulted w') = (''targets'', ''root''))"
  have i: "walk_inv ?b ?w0" by (simp add: walk_inv_def walk_start_def)
  have "?Q (fst (walk_loop env targetPath ?w0)) (snd (walk_loop env targetPath ?w0))"
  proof (rule walk_loop_rule [where I = "walk_inv ?b" and Q = ?Q, OF i])
    fix w w'
    assume "walk_inv ?b w" "walk_step env targetPath w = Inr w'"
    then show "walk_inv ?b w'" by (rule walk_inv_step [OF assms(1)])
  next
    fix w w' r
    assume "walk_inv ?b w" "walk_step env targetPath w = Inl (w', r)"
    then show "?Q w' r" by (rule walk_inv_fin)
  qed
  then have q: "?Q w' (snd (walk_loop env targetPath ?w0))"
    using assms(2) by (simp add: preorderDepthFirstWalk_def)
  then have "int (length (tl (consulted w'))) \<le> max 0 ?b"
    by (cases "consulted w'") auto
  with q show ?thesis by simp
qed

theorem walk_budget_witness:
  "commits_role offline_env \<and>
   distinct (map fst (consulted (fst (preorderDepthFirstWalk offline_env (chain_updater 1) ''file1.txt'')))) \<and>
   int (length (consulted (fst (preorderDepthFirstWalk offline_env (chain_updater 1) ''file1.txt''))))
     \<le> 2"
proof -
  have c: "commits_role offline_env"
    unfolding offline_env_def by (rule commits_role_example_env)
  have m: "maxDelegations (config (chain_updater 1)) = 1"
    by (simp add: chain_updater_def cached_updater_def example_config_def)
  from walk_budget [OF c refl, of "chain_updater 1" "''file1.txt''"] c m show ?thesis
    by simp
qed

subsection \<open>Terminating delegations\<close>

lemma collect_children_eq:
  "collect_children roleName rs =
     (map (\<lambda>c. (fst c, roleName)) (up_to_terminating rs), \<exists>c\<in>set rs. snd c)"
  by (induction rs) (auto split: prod.splits)

lemma push_children_subset:
  "set (push_children targetPath roleName targets stack) \<subseteq> set stack \<union> {d. snd d = roleName}"
  by (auto simp: push_children_def collect_children_eq split: option.splits)

lemma walk_loop_consulted:
  "\<forall>d\<in>set (consulted (fst (walk_loop env targetPath w))). consulted_from w d"
proof -
  let ?I = "\<lambda>w1. set (visitedRoleNames w) \<subseteq> set (visitedRoleNames w1) \<and>
                  (\<forall>d\<in>set (consulted w1) \<union> set (delegationsToVisit w1). consulted_from w d)"
  let ?Q = "\<lambda>w' (r :: error + TargetFile option). \<forall>d\<in>set (consulted w'). consulted_from w d"
  have i: "?I w" by (auto simp: consulted_from_def)
  have "?Q (fst (walk_loop env targetPath w)) (snd (walk_loop env targetPath w))"
  proof (rule walk_loop_rule [where I = ?I and Q = ?Q, OF i])
    fix w1 w2
    assume inv: "?I w1" and st: "walk_step env targetPath w1 = Inr w2"
    from st show "?I w2"
    proof (cases rule: walk_step_Inr_cases)
      case (skip r pr rest)
      with inv show ?thesis by auto
    next
      case (undefined r pr rest u')
      with inv show ?thesis by auto
    next
      case (visit r pr rest u' targets)
      have "consulted_from w d" if "d \<in> set (push_children targetPath r targets rest)" for d
      proof -
        from that push_children_subset have "d \<in> set rest \<or> snd d = r" by blast
        then show ?thesis
        proof
          assume "d \<in> set rest"
          with inv visit(1) show ?thesis by simp
        next
          assume "snd d = r"
          moreover from inv visit(3) have "r \<notin> set (visitedRoleNames w)" by blast
          ultimately show ?thesis by (simp add: consulted_from_def)
        qed
      qed
      with inv visit show ?thesis by auto
    qed
  next
    fix w1 w' r
    assume inv: "?I w1" and st: "walk_step env targetPath w1 = Inl (w', r)"
    from st show "?Q w' r"
    proof (cases rule: walk_step_Inl_cases)
      case finished
      with inv show ?thesis by simp
    next
      case (error r pr rest e)
      with inv show ?thesis by auto
    next
      case (found r pr rest u' targets target)
      with inv show ?thesis by auto
    qed
  qed
  then show ?thesis .
qed

text \<open>
  C4, as stated, fails where the role of a later sibling is delegated to a second time:
  \<^verbatim>\<open>targets\<close> delegates to A, to the terminating B and to C, and B delegates to C. C, a
  later sibling of B, is consulted all the same, as the child of B.
\<close>

theorem later_sibling_consulted:
  "consulted (fst (preorderDepthFirstWalk offline_env terminating_sibling_updater ''foo/bar''))
     = [(''targets'', ''root''), (''A'', ''targets''), (''B'', ''targets''), (''C'', ''B'')] \<and>
   map fst (consulted
      (fst (preorderDepthFirstWalk offline_env terminating_sibling_updater ''foo/bar'')))
     = [''targets'', ''A'', ''B'', ''C'']"
  by (simp add: preorderDepthFirstWalk_def walk_start_def walk_loop.simps walk_step_def
        push_children_def lookup_target_def Set_add_def loadTargets_def getRole_def Let_def
        cached_updater_def delegating_def example_config_def
        terminating_sibling_updater_def)

text \<open>
  C4, amended. In an iteration of the walk that visits a role whose matching child roles
  include a terminating one, the stack is left holding the matching children up to and
  including the first terminating one and nothing else; and every delegation consulted
  in the rest of the walk is one of these children or a delegation made by a role that
  was not visited before (apart from those consulted already). So no later sibling
  delegation of that parent and no delegation that was pending is consulted; the role
  that such a delegation names is consulted only where a role visited later delegates to
  it again.
\<close>

theorem terminating_delegation:
  assumes "delegationsToVisit w = (roleName, parentRoleName) # rest"
    and "int (length (visitedRoleNames w)) \<le> maxDelegations (config (w_updater w))"
    and "roleName \<notin> set (visitedRoleNames w)"
    and "loadTargets env (w_updater w) roleName parentRoleName = Inr (u', Some targets)"
    and "lookup_target targets targetPath = None"
    and "tg_delegations targets = Some rolesForTarget"
    and "\<exists>c\<in>set (rolesForTarget targetPath). snd c"
  shows "\<exists>w'. walk_step env targetPath w = Inr w' \<and>
              delegationsToVisit w'
                = map (\<lambda>c. (fst c, roleName)) (up_to_terminating (rolesForTarget targetPath)) \<and>
              (\<forall>d\<in>set (consulted (fst (walk_loop env targetPath w))).
                  d \<in> set (consulted w) \<or> d = (roleName, parentRoleName) \<or>
                  d \<in> set (delegationsToVisit w') \<or>
                  snd d \<notin> set (visitedRoleNames w) \<union> {roleName})"
proof -
  let ?w' = "w\<lparr> w_updater := u',
               delegationsToVisit := push_children targetPath roleName targets rest,
               visitedRoleNames := visitedRoleNames w @ [roleName],
               consulted := consulted w @ [(roleName, parentRoleName)] \<rparr>"
  have st: "walk_step env targetPath w = Inr ?w'"
    using assms(1-5) by (simp add: walk_step_def Let_def Set_add_def)
  have p: "delegationsToVisit ?w'
             = map (\<lambda>c. (fst c, roleName)) (up_to_terminating (rolesForTarget targetPath))"
    using assms(6,7) by (simp add: push_children_def collect_children_eq)
  have l: "walk_loop env targetPath w = walk_loop env targetPath ?w'"
    using st by (simp add: walk_loop.simps [of env targetPath w])
  have "\<forall>d\<in>set (consulted (fst (walk_loop env targetPath w))).
          d \<in> set (consulted w) \<or> d = (roleName, parentRoleName) \<or>
          d \<in> set (delegationsToVisit ?w') \<or>
          snd d \<notin> set (visitedRoleNames w) \<union> {roleName}"
    using walk_loop_consulted [of env targetPath ?w'] l
    by (auto simp: consulted_from_def)
  with st p show ?thesis by blast
qed

theorem terminating_delegation_witness:
  "(\<exists>w'. walk_step offline_env ''foo/bar'' (walk_start terminating_updater) = Inr w' \<and>
         delegationsToVisit w' = [(''A'', ''targets''), (''B'', ''targets'')]) \<and>
   (''C'', ''targets'')
     \<notin> set (consulted (fst (walk_loop offline_env ''foo/bar'' (walk_start terminating_updater))))"
proof -
  let ?children = "[(''A'', False), (''B'', True), (''C'', False)]"
  let ?w = "walk_start terminating_updater"
  have l: "loadTargets offline_env (w_updater ?w) ''targets'' ''root''
             = Inr (w_updater ?w, Some (delegating ?children))"
    by (simp add: walk_start_def loadTargets_def getRole_def cached_updater_def
          terminating_updater_def)
  have h: "delegationsToVisit ?w = (''targets'', ''root'') # []"
    "int (length (visitedRoleNames ?w)) \<le> maxDelegations (config (w_updater ?w))"
    "''targets'' \<notin> set (visitedRoleNames ?w)"
    "lookup_target (delegating ?children) ''foo/bar'' = None"
    "tg_delegations (delegating ?children) = Some (\<lambda>targetPath. ?children)"
    "\<exists>c\<in>set ((\<lambda>targetPath. ?children) ''foo/bar''). snd c"
    by (simp_all add: walk_start_def lookup_target_def delegating_def cached_updater_def
          example_config_def terminating_updater_def)
  from terminating_delegation [OF h(1) h(2) h(3) l h(4) h(5) h(6)]
  obtain w' where
    s: "walk_step offline_env ''foo/bar'' ?w = Inr w'" and
    d: "delegationsToVisit w' = [(''A'', ''targets''), (''B'', ''targets'')]" and
    c: "\<forall>d\<in>set (consulted (fst (walk_loop offline_env ''foo/bar'' ?w))).
          d \<in> set (consulted ?w) \<or> d = (''targets'', ''root'') \<or>
          d \<in> set (delegationsToVisit w') \<or>
          snd d \<notin> set (visitedRoleNames ?w) \<union> {''targets''}"
    by auto
  have n: "(''C'', ''targets'')
     \<notin> set (consulted (fst (walk_loop offline_env ''foo/bar'' ?w)))"
  proof
    assume a: "(''C'', ''targets'')
      \<in> set (consulted (fst (walk_loop offline_env ''foo/bar'' ?w)))"
    from bspec [OF c a] d show False
      by (simp add: walk_start_def)
  qed
  from s d have "\<exists>w'. walk_step offline_env ''foo/bar'' ?w = Inr w' \<and>
         delegationsToVisit w' = [(''A'', ''targets''), (''B'', ''targets'')]"
    by (rule_tac x = w' in exI) simp
  with n show ?thesis by (rule_tac conjI)
qed

text \<open>Scenario 5 of the specification: C is not consulted.\<close>

lemma terminating_example:
  "consulted (fst (preorderDepthFirstWalk offline_env terminating_updater ''foo/bar''))
     = [(''targets'', ''root''), (''A'', ''targets''), (''B'', ''targets'')]"
  by (simp add: preorderDepthFirstWalk_def walk_start_def walk_loop.simps walk_step_def
        push_children_def lookup_target_def Set_add_def loadTargets_def getRole_def Let_def
        cached_updater_def delegating_def example_config_def
        terminating_updater_def)

text \<open>
  On the walk from its start, the delegations on the stack were made by visited roles.
  So where an iteration meets a terminating child, a delegation that was on the stack
  and one that the visited role makes and that is not pushed are not consulted in the
  rest of the walk.
\<close>

lemma pending_inv_start: "pending_inv (walk_start u)"
  by (simp add: pending_inv_def walk_start_def)

lemma pending_inv_step:
  assumes "pending_inv w" and "walk_step env targetPath w = Inr w'"
  shows "pending_inv w'"
  using assms(2)
proof (cases rule: walk_step_Inr_cases)
  case (skip r pr rest)
  with assms(1) show ?thesis by (auto simp: pending_inv_def)
next
  case (undefined r pr rest u')
  with assms(1) show ?thesis by (auto simp: pending_inv_def)
next
  case (visit r pr rest u' targets)
  from assms(1) visit(1) have r: "\<forall>d\<in>set rest. snd d \<in> set (visitedRoleNames w)"
    by (auto simp: pending_inv_def)
  have "snd d \<in> set (visitedRoleNames w @ [r])"
    if "d \<in> set (push_children targetPath r targets rest)" for d
    using that push_children_subset [of targetPath r targets rest] r by auto
  with visit(6) show ?thesis by (simp add: pending_inv_def)
qed

lemma terminating_drops_pending:
  assumes "pending_inv w"
    and "delegationsToVisit w = (roleName, parentRoleName) # rest"
    and "int (length (visitedRoleNames w)) \<le> maxDelegations (config (w_updater w))"
    and "roleName \<notin> set (visitedRoleNames w)"
    and "loadTargets env (w_updater w) roleName parentRoleName = Inr (u', Some targets)"
    and "lookup_target targets targetPath = None"
    and "tg_delegations targets = Some rolesForTarget"
    and "\<exists>c\<in>set (rolesForTarget targetPath). snd c"
    and "d \<in> set rest \<or>
         (snd d = roleName \<and>
          fst d \<notin> fst ` set (up_to_terminating (rolesForTarget targetPath)))"
    and "d \<notin> set (consulted w)" and "d \<noteq> (roleName, parentRoleName)"
  shows "d \<notin> set (consulted (fst (walk_loop env targetPath w)))"
proof
  let ?w' = "w\<lparr> w_updater := u',
               delegationsToVisit := push_children targetPath roleName targets rest,
               visitedRoleNames := visitedRoleNames w @ [roleName],
               consulted := consulted w @ [(roleName, parentRoleName)] \<rparr>"
  assume c: "d \<in> set (consulted (fst (walk_loop env targetPath w)))"
  have st: "walk_step env targetPath w = Inr ?w'"
    using assms(2-6) by (simp add: walk_step_def Let_def Set_add_def)
  have p: "delegationsToVisit ?w'
             = map (\<lambda>c. (fst c, roleName)) (up_to_terminating (rolesForTarget targetPath))"
    using assms(7,8) by (simp add: push_children_def collect_children_eq)
  have l: "walk_loop env targetPath w = walk_loop env targetPath ?w'"
    using st by (simp add: walk_loop.simps [of env targetPath w])
  from walk_loop_consulted [of env targetPath ?w'] l c have "consulted_from ?w' d"
    by simp
  with assms(10,11) have f: "d \<in> set (delegationsToVisit ?w') \<or>
      snd d \<notin> set (visitedRoleNames w) \<union> {roleName}"
    by (auto simp: consulted_from_def)
  from assms(9) show False
  proof
    assume r: "d \<in> set rest"
    with assms(1,2) have v: "snd d \<in> set (visitedRoleNames w)"
      by (auto simp: pending_inv_def)
    with assms(4) have "snd d \<noteq> roleName" by auto
    with p have "d \<notin> set (delegationsToVisit ?w')" by auto
    with f v show False by simp
  next
    assume s: "snd d = roleName \<and>
          fst d \<notin> fst ` set (up_to_terminating (rolesForTarget targetPath))"
    have "d \<notin> set (map (\<lambda>c. (fst c, roleName)) (up_to_terminating (rolesForTarget targetPath)))"
    proof
      assume "d \<in> set (map (\<lambda>c. (fst c, roleName)) (up_to_terminating (rolesForTarget targetPath)))"
      then obtain c where "c \<in> set (up_to_terminating (rolesForTarget targetPath))"
        and "d = (fst c, roleName)" by auto
      then have "fst d \<in> fst ` set (up_to_terminating (rolesForTarget targetPath))" by simp
      with s show False by simp
    qed
    with p have "d \<notin> set (delegationsToVisit ?w')" by simp
    with f s show False by simp
  qed
qed

subsection \<open>\<^verbatim>\<open>getTargetInfo\<close> and the refresh\<close>

text \<open>
  Whatever the updater, the refresh that is started has changed neither the trusted set
  nor the files when the walk begins.
\<close>

lemma refresh_until_first_await_frame:
  "trustedSet (refresh_until_first_await u) = trustedSet u"
  "files (refresh_until_first_await u) = files u"
  "config (refresh_until_first_await u) = config u"
  by (simp_all add: refresh_until_first_await_def Let_def)

text \<open>
  C6 fails on the code: \<^verbatim>\<open>getTargetInfo\<close> does not await the refresh that it starts. On an
  updater that trusts a root and nothing else, with a remote that serves all the metadata
  of a repository with the target \<^verbatim>\<open>file1.txt\<close>, the walk starts with the trusted set as
  it was and fails at once for want of a snapshot, when only the request for the next
  root has gone out; the refresh awaited first, the walk finds the target.
\<close>

theorem getTargetInfo_walks_before_refresh:
  "getRole (trustedSet (fresh_updater (example_config 1 32))) ''targets'' = None \<and>
   snd (getTargetInfo (example_env example_remote example_table)
          (fresh_updater (example_config 1 32)) ''file1.txt'')
     = Inl (ReferenceError ''No snapshot metadata'') \<and>
   trustedSet (w_updater (fst (getTargetInfo (example_env example_remote example_table)
          (fresh_updater (example_config 1 32)) ''file1.txt'')))
     = trustedSet (fresh_updater (example_config 1 32)) \<and>
   requests (w_updater (fst (getTargetInfo (example_env example_remote example_table)
          (fresh_updater (example_config 1 32)) ''file1.txt'')))
     = [''http:/repo/2.root.json''] \<and>
   map_sum id snd (getTargetInfo_awaited (example_env example_remote example_table)
          (fresh_updater (example_config 1 32)) ''file1.txt'')
     = Inr (Inr (Some file1))"
  by (simp add: getTargetInfo_def getTargetInfo_awaited_def refresh_until_first_await_def
        refresh_def refresh_snapshot_targets_def loadTimestamp_def loadTimestamp_local_def
        loadSnapshot_def loadLocalMetadata_def versioned_name_def or_length_def
        loadRoot_def loadRoot_loop.simps fetcher_downloadBytes_def downloadBytes_def
        persistMetadata_def path_join_examples Let_def example_env_def example_remote_def
        example_table_def example_config_def store_updateRoot_def string_of_int_examples
        preorderDepthFirstWalk_def walk_start_def walk_loop.simps walk_step_def
        push_children_def lookup_target_def Set_add_def loadTargets_def getRole_def
        store_updateTimestamp_def store_updateSnapshot_def store_updateDelegatedTargets_def
        fresh_updater_def)

end
